theory Spec2Isabelle
  imports Complex_Main "HOL-Library.AList"
begin

section \<open>Board and move model (ai.utils.js, constants.js)\<close>

text \<open>
  The engine works on a 10 x 10 grid of cell contents, a player to move, and a history of
  position keys. A grid is an array of row arrays; every function of the engine that needs a
  changed grid first copies it (\<^verbatim>\<open>pieces.map(row => [...row])\<close>), so a grid is a value here.
  Where the source shares a grid between two position objects and writes to it, the store of
  the last sections makes the sharing explicit.
\<close>

datatype piece = NONE | WHITE | BLACK | WHITE_KING | BLACK_KING

datatype player = PLAYER_WHITE | PLAYER_BLACK

record square =
  row :: int
  col :: int

record move =
  "from" :: square
  to :: square
  captures :: "square list"

type_synonym grid = "piece list list"

type_synonym poskey = "piece list \<times> player"

record position =
  pieces :: grid
  currentPlayer :: player
  history :: "poskey list"

text \<open>
  Modelled from the spec: \<^verbatim>\<open>constants.js\<close> is not among the sources. The spec fixes the
  board at 10 x 10; the code itself uses the literals 9 and 10 for the last row and the size.
\<close>

definition BOARD_SIZE :: int where
  "BOARD_SIZE = 10"

text \<open>
  Modelled from the spec: the direction tables of \<^verbatim>\<open>constants.js\<close> are missing. A direction
  is one of the four diagonal unit steps \<^verbatim>\<open>{dy, dx}\<close>; \<^verbatim>\<open>KING_MOVES\<close> lists all four (in the
  order of the literal tables of ai.evaluation.js), White men step towards row 0 (where they
  promote) and Black men towards row 9.
\<close>

datatype direction = UpLeft | UpRight | DownLeft | DownRight

fun dy :: "direction \<Rightarrow> int" where
  "dy UpLeft = -1"
| "dy UpRight = -1"
| "dy DownLeft = 1"
| "dy DownRight = 1"

fun dx :: "direction \<Rightarrow> int" where
  "dx UpLeft = -1"
| "dx UpRight = 1"
| "dx DownLeft = -1"
| "dx DownRight = 1"

definition KING_MOVES :: "direction list" where
  "KING_MOVES = [UpLeft, UpRight, DownLeft, DownRight]"

definition WHITE_MOVES :: "direction list" where
  "WHITE_MOVES = [UpLeft, UpRight]"

definition BLACK_MOVES :: "direction list" where
  "BLACK_MOVES = [DownLeft, DownRight]"

definition isValidSquare :: "int \<Rightarrow> int \<Rightarrow> bool" where
  "isValidSquare r c = (r \<ge> 0 \<and> r < BOARD_SIZE \<and> c \<ge> 0 \<and> c < BOARD_SIZE)"

definition validSq :: "square \<Rightarrow> bool" where
  "validSq s = isValidSquare (row s) (col s)"

text \<open>
  \<^verbatim>\<open>pieces[r][c]\<close> and \<^verbatim>\<open>pieces[r][c] = v\<close>. The source reads and writes only after
  \<^verbatim>\<open>isValidSquare\<close>, or at squares its caller took from the board; outside the grid JavaScript
  would raise or yield \<^verbatim>\<open>undefined\<close>, and the theorems below assume valid squares there.
\<close>

definition cell :: "grid \<Rightarrow> int \<Rightarrow> int \<Rightarrow> piece" where
  "cell g r c = g ! nat r ! nat c"

definition setCell :: "grid \<Rightarrow> int \<Rightarrow> int \<Rightarrow> piece \<Rightarrow> grid" where
  "setCell g r c v = g[nat r := (g ! nat r)[nat c := v]]"

definition pieceAt :: "grid \<Rightarrow> square \<Rightarrow> piece" where
  "pieceAt g s = cell g (row s) (col s)"

definition setPiece :: "grid \<Rightarrow> square \<Rightarrow> piece \<Rightarrow> grid" where
  "setPiece g s v = setCell g (row s) (col s) v"

definition wf_grid :: "grid \<Rightarrow> bool" where
  "wf_grid g = (length g = 10 \<and> list_all (\<lambda>r. length r = 10) g)"

definition isPieceOfCurrentPlayer :: "piece \<Rightarrow> player \<Rightarrow> bool" where
  "isPieceOfCurrentPlayer p player =
     (if player = PLAYER_WHITE then (p = WHITE \<or> p = WHITE_KING)
      else (p = BLACK \<or> p = BLACK_KING))"

definition isOpponentPiece :: "piece \<Rightarrow> player \<Rightarrow> bool" where
  "isOpponentPiece p player =
     (if player = PLAYER_WHITE then (p = BLACK \<or> p = BLACK_KING)
      else (p = WHITE \<or> p = WHITE_KING))"

definition isPlayerPiece :: "piece \<Rightarrow> player \<Rightarrow> bool" where
  "isPlayerPiece p pl =
     (if pl = PLAYER_WHITE then (p = WHITE \<or> p = WHITE_KING)
      else (p = BLACK \<or> p = BLACK_KING))"

definition otherPlayer :: "player \<Rightarrow> player" where
  "otherPlayer pl = (if pl = PLAYER_WHITE then PLAYER_BLACK else PLAYER_WHITE)"

definition shouldPromote :: "piece \<Rightarrow> int \<Rightarrow> bool" where
  "shouldPromote p r = ((p = WHITE \<and> r = 0) \<or> (p = BLACK \<and> r = BOARD_SIZE - 1))"

subsection \<open>makeMove\<close>

text \<open>
  The new grid is a copy; the source square is emptied, the piece is put on the destination,
  then every square of \<^verbatim>\<open>captures\<close> is emptied in order, then a promoting man is replaced by
  a king. The history is the old one (\<^verbatim>\<open>position.history || []\<close>).
\<close>

definition makeMove :: "position \<Rightarrow> move \<Rightarrow> position" where
  "makeMove p m =
     (let piece = pieceAt (pieces p) (from m);
          g1 = setPiece (pieces p) (from m) NONE;
          g2 = setPiece g1 (to m) piece;
          g3 = foldl (\<lambda>g cap. setPiece g cap NONE) g2 (captures m);
          g4 = (if shouldPromote piece (row (to m))
                then setPiece g3 (to m) (if piece = WHITE then WHITE_KING else BLACK_KING)
                else g3)
      in \<lparr>pieces = g4,
          currentPlayer = (if currentPlayer p = PLAYER_WHITE then PLAYER_BLACK else PLAYER_WHITE),
          history = history p\<rparr>)"

subsection \<open>Capture search\<close>

text \<open>
  The flying-king scan of \<^verbatim>\<open>findCaptureSequences\<close>: walk from the square next to the king
  along the direction until the board ends or a piece is met; an opponent piece is the
  candidate victim, an own piece blocks.
\<close>

function findEnemy :: "grid \<Rightarrow> player \<Rightarrow> direction \<Rightarrow> int \<Rightarrow> int \<Rightarrow> square option" where
  "findEnemy g player d checkRow checkCol =
     (if isValidSquare checkRow checkCol then
        (let checkPiece = cell g checkRow checkCol in
         if checkPiece \<noteq> NONE then
           (if isOpponentPiece checkPiece player
            then Some \<lparr>row = checkRow, col = checkCol\<rparr> else None)
         else findEnemy g player d (checkRow + dy d) (checkCol + dx d))
      else None)"
  by pat_completeness auto
termination
  apply (relation "measure (\<lambda>(g, pl, d, r, c). nat (if dy d = 1 then BOARD_SIZE - r else r + 1))")
   apply simp
  subgoal for g pl d r c by (cases d) (auto simp: isValidSquare_def BOARD_SIZE_def)
  done

text \<open>The landing squares behind the victim: every empty square until the first obstacle.\<close>

function landingSquares :: "grid \<Rightarrow> direction \<Rightarrow> int \<Rightarrow> int \<Rightarrow> square list" where
  "landingSquares g d landRow landCol =
     (if isValidSquare landRow landCol \<and> cell g landRow landCol = NONE
      then \<lparr>row = landRow, col = landCol\<rparr> # landingSquares g d (landRow + dy d) (landCol + dx d)
      else [])"
  by pat_completeness auto
termination
  apply (relation "measure (\<lambda>(g, d, r, c). nat (if dy d = 1 then BOARD_SIZE - r else r + 1))")
   apply simp
  subgoal for g d r c by (cases d) (auto simp: isValidSquare_def BOARD_SIZE_def)
  done

definition alreadyCaptured :: "square list \<Rightarrow> square \<Rightarrow> bool" where
  "alreadyCaptured capturedSoFar s = list_ex (\<lambda>p. row p = row s \<and> col p = col s) capturedSoFar"

text \<open>
  The jumps one direction offers, as pairs (victim, landing square), in the order the source
  tries them. The source's loop body reads only \<^verbatim>\<open>pieces\<close>, \<^verbatim>\<open>currentPos\<close> and
  \<^verbatim>\<open>capturedSoFar\<close>, none of which the recursive calls change, so the jumps of a call are
  determined before its recursive calls are made; \<^verbatim>\<open>foundJump\<close> is true exactly when some
  direction offers a jump.
\<close>

definition kingJumps :: "grid \<Rightarrow> square \<Rightarrow> square list \<Rightarrow> player \<Rightarrow> direction \<Rightarrow> (square \<times> square) list" where
  "kingJumps g currentPos capturedSoFar player d =
     (case findEnemy g player d (row currentPos + dy d) (col currentPos + dx d) of
        None \<Rightarrow> []
      | Some enemyPos \<Rightarrow>
          if \<not> alreadyCaptured capturedSoFar enemyPos
          then map (\<lambda>l. (enemyPos, l))
                 (landingSquares g d (row enemyPos + dy d) (col enemyPos + dx d))
          else [])"

definition manJumps :: "grid \<Rightarrow> square \<Rightarrow> square list \<Rightarrow> player \<Rightarrow> direction \<Rightarrow> (square \<times> square) list" where
  "manJumps g currentPos capturedSoFar player d =
     (let jumpOverPos = \<lparr>row = row currentPos + dy d, col = col currentPos + dx d\<rparr>;
          landPos = \<lparr>row = row currentPos + 2 * dy d, col = col currentPos + 2 * dx d\<rparr>
      in if isValidSquare (row landPos) (col landPos) \<and> pieceAt g landPos = NONE
            \<and> isOpponentPiece (pieceAt g jumpOverPos) player
         then (if \<not> alreadyCaptured capturedSoFar jumpOverPos then [(jumpOverPos, landPos)] else [])
         else [])"

definition isKing :: "piece \<Rightarrow> bool" where
  "isKing p = (p = WHITE_KING \<or> p = BLACK_KING)"

definition jumpsFrom :: "grid \<Rightarrow> square \<Rightarrow> square list \<Rightarrow> player \<Rightarrow> (square \<times> square) list" where
  "jumpsFrom g currentPos capturedSoFar player =
     concat (map (\<lambda>d. if isKing (pieceAt g currentPos)
                       then kingJumps g currentPos capturedSoFar player d
                       else manJumps g currentPos capturedSoFar player d) KING_MOVES)"

text \<open>The capture made on a copy of the grid.\<close>

definition applyJump :: "grid \<Rightarrow> square \<Rightarrow> square \<Rightarrow> square \<Rightarrow> grid" where
  "applyJump g currentPos enemyPos landPos =
     setPiece (setPiece (setPiece g currentPos NONE) enemyPos NONE) landPos (pieceAt g currentPos)"

text \<open>
  \<^verbatim>\<open>findCaptureSequences\<close> returns the sequences it pushes onto \<^verbatim>\<open>sequences\<close>, in the
  order of the pushes. The set \<^verbatim>\<open>visitedPositions\<close> of keys \<^verbatim>\<open>"row,col"\<close> is the list of
  the squares themselves (the key is injective on integer pairs); each recursive call gets
  its own copy, so the final \<^verbatim>\<open>delete\<close> has no effect on any caller.
\<close>

function findCaptureSequences ::
  "grid \<Rightarrow> square \<Rightarrow> square list \<Rightarrow> square list \<Rightarrow> square list \<Rightarrow> player \<Rightarrow> nat \<Rightarrow> move list" where
  "findCaptureSequences g currentPos path capturedSoFar visitedPositions player recursionDepth =
     (if recursionDepth > 20 then []
      else if currentPos \<in> set visitedPositions then []
      else
        (let jumps = jumpsFrom g currentPos capturedSoFar player
         in concat (map (\<lambda>j. findCaptureSequences
                              (applyJump g currentPos (fst j) (snd j))
                              (snd j)
                              (path @ [currentPos])
                              (capturedSoFar @ [fst j])
                              (visitedPositions @ [currentPos])
                              player
                              (recursionDepth + 1)) jumps)
            @ (if jumps = [] \<and> capturedSoFar \<noteq> []
               then [\<lparr>from = (case path of [] \<Rightarrow> currentPos | p0 # _ \<Rightarrow> p0),
                      to = currentPos, captures = capturedSoFar\<rparr>]
               else [])))"
  by pat_completeness auto
termination
  by (relation "measure (\<lambda>(g, pos, path, cap, vis, pl, depth). 21 - depth)") auto

definition boardSquares :: "square list" where
  "boardSquares =
     concat (map (\<lambda>r. map (\<lambda>c. \<lparr>row = r, col = c\<rparr>) [0..BOARD_SIZE - 1]) [0..BOARD_SIZE - 1])"

text \<open>All sequences found, piece by piece, rows first.\<close>

definition allCaptures :: "position \<Rightarrow> move list" where
  "allCaptures p =
     concat (map (\<lambda>s. if isPieceOfCurrentPlayer (pieceAt (pieces p) s) (currentPlayer p)
                       then findCaptureSequences (pieces p) s [] [] [] (currentPlayer p) 0
                       else []) boardSquares)"

text \<open>
  \<^verbatim>\<open>Array.prototype.sort\<close> is stable; sorting by descending capture count is the stable
  insertion sort on the negated length.
\<close>

definition getAvailableCaptures :: "position \<Rightarrow> move list" where
  "getAvailableCaptures p =
     (let allC = allCaptures p in
      if length allC > 0 then
        (let sorted = sort_key (\<lambda>m. - int (length (captures m))) allC;
             maxLength = length (captures (hd sorted))
         in filter (\<lambda>m. length (captures m) = maxLength) sorted)
      else [])"

subsection \<open>Quiet moves and generateMoves\<close>

text \<open>
  \<^verbatim>\<open>isDarkSquare\<close> belongs to the missing \<^verbatim>\<open>constants.js\<close>; it is a parameter \<open>dark\<close> of
  every function that reaches it, so that the results hold for either colouring of the board.
\<close>

function slideMoves :: "(int \<Rightarrow> int \<Rightarrow> bool) \<Rightarrow> grid \<Rightarrow> square \<Rightarrow> direction \<Rightarrow> int \<Rightarrow> int \<Rightarrow> move list" where
  "slideMoves dark g src d nr nc =
     (if isValidSquare nr nc \<and> cell g nr nc = NONE \<and> dark nr nc
      then \<lparr>from = src, to = \<lparr>row = nr, col = nc\<rparr>, captures = []\<rparr>
             # slideMoves dark g src d (nr + dy d) (nc + dx d)
      else [])"
  by pat_completeness auto
termination
  apply (relation "measure (\<lambda>(dark, g, src, d, r, c). nat (if dy d = 1 then BOARD_SIZE - r else r + 1))")
   apply simp
  subgoal for dark g src d r c by (cases d) (auto simp: isValidSquare_def BOARD_SIZE_def)
  done

definition addNormalMovesForPiece :: "(int \<Rightarrow> int \<Rightarrow> bool) \<Rightarrow> position \<Rightarrow> int \<Rightarrow> int \<Rightarrow> move list" where
  "addNormalMovesForPiece dark p r c =
     (if isKing (cell (pieces p) r c) then
        concat (map (\<lambda>d. slideMoves dark (pieces p) \<lparr>row = r, col = c\<rparr> d (r + dy d) (c + dx d))
                  KING_MOVES)
      else
        concat (map (\<lambda>d. let nr = r + dy d; nc = c + dx d in
                          if isValidSquare nr nc \<and> cell (pieces p) nr nc = NONE \<and> dark nr nc
                          then [\<lparr>from = \<lparr>row = r, col = c\<rparr>, to = \<lparr>row = nr, col = nc\<rparr>,
                                 captures = []\<rparr>]
                          else [])
                  (if currentPlayer p = PLAYER_WHITE then WHITE_MOVES else BLACK_MOVES)))"

definition normalMoves :: "(int \<Rightarrow> int \<Rightarrow> bool) \<Rightarrow> position \<Rightarrow> move list" where
  "normalMoves dark p =
     concat (map (\<lambda>s. if isPieceOfCurrentPlayer (pieceAt (pieces p) s) (currentPlayer p)
                       then addNormalMovesForPiece dark p (row s) (col s)
                       else []) boardSquares)"

definition generateMoves :: "(int \<Rightarrow> int \<Rightarrow> bool) \<Rightarrow> position \<Rightarrow> move list" where
  "generateMoves dark p =
     (let caps = getAvailableCaptures p in
      if length caps > 0 then caps else normalMoves dark p)"

section \<open>History heuristic (ai.move-ordering.js)\<close>

text \<open>
  The history table is a \<^verbatim>\<open>Map\<close> from move keys to numbers. The key
  \<^verbatim>\<open>`${from.row},${from.col}-${to.row},${to.col}`\<close> determines the four integers and is
  determined by them, so the key is the four integers. Scores are sums of squares of integer
  depths, so they are integers and \<^verbatim>\<open>Math.floor(v / 2)\<close> is \<open>v div 2\<close>.
\<close>

type_synonym movekey = "int \<times> int \<times> int \<times> int"

definition getMoveKey :: "move \<Rightarrow> movekey" where
  "getMoveKey m = (row (from m), col (from m), row (to m), col (to m))"

definition updateHistory :: "move \<Rightarrow> int \<Rightarrow> (movekey \<rightharpoonup> int) \<Rightarrow> (movekey \<rightharpoonup> int)" where
  "updateHistory m depth historyTable =
     (let key = getMoveKey m;
          current = (case historyTable key of None \<Rightarrow> 0 | Some v \<Rightarrow> v);
          increment = depth * depth;
          aged = (if current > 10000
                  then (\<lambda>k. map_option (\<lambda>v. v div 2) (historyTable k))
                  else historyTable)
      in aged(key \<mapsto> current + increment))"

section \<open>Mobility (ai.evaluation.js)\<close>

text \<open>
  \<^verbatim>\<open>evaluateMobilityDifferential\<close> counts the moves of the side to move and of the other
  side on the same grid; the three bonuses are three separate \<^verbatim>\<open>if\<close> statements, each
  adding to the score.
\<close>

definition evaluateMobilityDifferential :: "(int \<Rightarrow> int \<Rightarrow> bool) \<Rightarrow> position \<Rightarrow> int" where
  "evaluateMobilityDifferential dark p =
     (let ourMoves = int (length (generateMoves dark p));
          oppPosition = \<lparr>pieces = pieces p,
                         currentPlayer = (if currentPlayer p = PLAYER_WHITE then PLAYER_BLACK
                                          else PLAYER_WHITE),
                         history = []\<rparr>;
          theirMoves = int (length (generateMoves dark oppPosition));
          score0 = (ourMoves - theirMoves) * 5;
          score1 = (if theirMoves \<le> 3 then score0 + 30 else score0);
          score2 = (if theirMoves \<le> 1 then score1 + 70 else score1);
          score3 = (if theirMoves = 0 then score2 + 200 else score2)
      in score3)"

section \<open>Transposition table (ai.tt.js)\<close>

text \<open>
  Scores are JavaScript numbers; the search also uses \<^verbatim>\<open>-Infinity\<close> and \<^verbatim>\<open>Infinity\<close> as
  window bounds. The table only compares scores, so a score is an infinity or a rational
  number, ordered as the numbers are.
\<close>

datatype num = NegInfinity | Num rat | Infinity

instantiation num :: linorder
begin

fun less_eq_num :: "num \<Rightarrow> num \<Rightarrow> bool" where
  "less_eq_num NegInfinity y = True"
| "less_eq_num (Num a) NegInfinity = False"
| "less_eq_num (Num a) (Num b) = (a \<le> b)"
| "less_eq_num (Num a) Infinity = True"
| "less_eq_num Infinity NegInfinity = False"
| "less_eq_num Infinity (Num b) = False"
| "less_eq_num Infinity Infinity = True"

definition less_num :: "num \<Rightarrow> num \<Rightarrow> bool" where
  "less_num x y = (x \<le> y \<and> \<not> y \<le> x)"

instance
proof
  fix x y z :: num
  show "(x < y) = (x \<le> y \<and> \<not> y \<le> x)" by (simp add: less_num_def)
  show "x \<le> x" by (cases x) auto
  show "x \<le> y \<Longrightarrow> y \<le> z \<Longrightarrow> x \<le> z" by (cases x; cases y; cases z) auto
  show "x \<le> y \<Longrightarrow> y \<le> x \<Longrightarrow> x = y" by (cases x; cases y) auto
  show "x \<le> y \<or> y \<le> x" by (cases x; cases y) auto
qed

end

datatype entryType = EXACT | LOWER_BOUND | UPPER_BOUND

text \<open>
  An entry of the table; the fields are those of the object literal in \<^verbatim>\<open>store\<close>, with the
  prefix \<open>e_\<close>. \<^verbatim>\<open>bestMove\<close> may be \<^verbatim>\<open>null\<close>.
\<close>

record entry =
  e_depth :: int
  e_value :: num
  e_type :: entryType
  e_bestMove :: "move option"
  e_accessTime :: nat
  e_age :: nat

text \<open>
  The closure state of \<^verbatim>\<open>createTranspositionTable\<close>: the \<^verbatim>\<open>Map\<close> in insertion order (an
  association list with distinct keys: \<open>AList.update\<close> replaces the value of a present key in
  place and appends a new key at the end, as \<^verbatim>\<open>Map.set\<close> does) and the three counters.
\<close>

record 'k tt =
  table :: "('k \<times> entry) list"
  accessCount :: nat
  hits :: nat
  stores :: nat

definition emptyTT :: "'k tt" where
  "emptyTT = \<lparr>table = [], accessCount = 0, hits = 0, stores = 0\<rparr>"

text \<open>
  \<^verbatim>\<open>cleanup\<close>: every entry ages by one; the entries are sorted (stably) by
  \<^verbatim>\<open>accessTime / 1000 + depth * 10 - age * 5\<close>, ascending, and the first
  \<^verbatim>\<open>Math.floor(entries.length * 0.3)\<close> of them are deleted from the map by key. For a
  natural number \<open>n\<close> the floating-point product \<open>n * 0.3\<close> has the integer part of
  \<open>3 n / 10\<close>; the score is computed here in exact rational arithmetic.
\<close>

definition entryScore :: "entry \<Rightarrow> rat" where
  "entryScore e = of_nat (e_accessTime e) / 1000 + of_int (e_depth e) * 10 - of_nat (e_age e) * 5"

definition cleanup :: "'k tt \<Rightarrow> 'k tt" where
  "cleanup t =
     (let aged = map (\<lambda>ke. (fst ke, (snd ke)\<lparr>e_age := e_age (snd ke) + 1\<rparr>)) (table t);
          sorted = sort_key (\<lambda>ke. entryScore (snd ke)) aged;
          toDelete = (3 * length aged) div 10;
          doomed = map fst (take toDelete sorted)
      in t\<lparr>table := filter (\<lambda>ke. fst ke \<notin> set doomed) aged\<rparr>)"

definition store :: "nat \<Rightarrow> 'k tt \<Rightarrow> 'k \<Rightarrow> int \<Rightarrow> num \<Rightarrow> entryType \<Rightarrow> move option \<Rightarrow> 'k tt" where
  "store maxSize t key depth v ty best =
     (let t1 = (if length (table t) \<ge> maxSize then cleanup t else t);
          existingEntry = map_of (table t1) key
      in if (case existingEntry of
               None \<Rightarrow> True
             | Some ex \<Rightarrow> e_depth ex < depth \<or> (e_depth ex = depth \<and> ty = EXACT))
         then t1\<lparr>table := AList.update key
                            \<lparr>e_depth = depth, e_value = v, e_type = ty, e_bestMove = best,
                             e_accessTime = accessCount t1, e_age = 0\<rparr> (table t1),
                 accessCount := accessCount t1 + 1,
                 stores := stores t1 + 1\<rparr>
         else t1)"

text \<open>
  \<^verbatim>\<open>lookup\<close> returns \<^verbatim>\<open>null\<close> (here \<open>None\<close>), the entry itself, or a copy of the entry
  with \<^verbatim>\<open>useful: false\<close>. The result carries the entry and the flag the callers test
  (\<^verbatim>\<open>cached.useful !== false\<close>); the second component is the table afterwards.
\<close>

definition lookup :: "'k tt \<Rightarrow> 'k \<Rightarrow> int \<Rightarrow> num \<Rightarrow> num \<Rightarrow> (entry \<times> bool) option \<times> 'k tt" where
  "lookup t key depth alpha beta =
     (case map_of (table t) key of
        None \<Rightarrow> (None, t)
      | Some e0 \<Rightarrow>
          if e_depth e0 < depth then (None, t)
          else
            (let e1 = e0\<lparr>e_accessTime := accessCount t, e_age := 0\<rparr>;
                 t1 = t\<lparr>table := AList.update key e1 (table t),
                        accessCount := accessCount t + 1,
                        hits := hits t + 1\<rparr>
             in if e_type e1 = EXACT then (Some (e1, True), t1)
                else if e_type e1 = LOWER_BOUND \<and> e_value e1 \<ge> beta then (Some (e1, True), t1)
                else if e_type e1 = UPPER_BOUND \<and> e_value e1 \<le> alpha then (Some (e1, True), t1)
                else (Some (e1, False), t1)))"

section \<open>Static exchange evaluation (ai.safety.js)\<close>

definition getPieceValue :: "piece \<Rightarrow> int" where
  "getPieceValue p =
     (case p of WHITE \<Rightarrow> 100 | BLACK \<Rightarrow> 100 | WHITE_KING \<Rightarrow> 450 | BLACK_KING \<Rightarrow> 450
      | NONE \<Rightarrow> 0)"

definition capturesSquare :: "move \<Rightarrow> square \<Rightarrow> bool" where
  "capturesSquare recap s = list_ex (\<lambda>cap. row cap = row s \<and> col cap = col s) (captures recap)"

text \<open>
  The loop that picks the least valuable attacker: the first recapture whose attacker value
  is below every value seen before it (\<open>None\<close> stands for the initial \<^verbatim>\<open>Infinity\<close>).
\<close>

definition leastValuableAttacker :: "grid \<Rightarrow> move list \<Rightarrow> move option" where
  "leastValuableAttacker g recaptures =
     map_option fst
       (foldl (\<lambda>best recap.
                 let attackerValue = getPieceValue (pieceAt g (from recap)) in
                 case best of
                   None \<Rightarrow> Some (recap, attackerValue)
                 | Some (b, bestRecaptureValue) \<Rightarrow>
                     if attackerValue < bestRecaptureValue then Some (recap, attackerValue)
                     else Some (b, bestRecaptureValue))
          None recaptures)"

text \<open>
  \<^verbatim>\<open>staticExchangeEvaluation\<close> calls itself on the position after the move; the source
  gives no bound for this recursion, so the model is a partial function and \<open>None\<close> stands
  for a call that does not return. After \<^verbatim>\<open>makeMove\<close> has passed the turn to the
  opponent, the source sets \<^verbatim>\<open>afterMove.currentPlayer = position.currentPlayer\<close>, and it is
  for this player that the recaptures are generated.
\<close>

partial_function (option) staticExchangeEvaluation :: "position \<Rightarrow> move \<Rightarrow> int option" where
  "staticExchangeEvaluation p m =
     (if captures m = [] then Some 0
      else
        (let gain = foldl (\<lambda>acc cap. acc + getPieceValue (pieceAt (pieces p) cap)) 0 (captures m);
             afterMove = (makeMove p m)\<lparr>currentPlayer := currentPlayer p\<rparr>;
             recaptures = filter (\<lambda>recap. capturesSquare recap (to m))
                            (getAvailableCaptures afterMove)
         in if recaptures = [] then Some gain
            else
              (case leastValuableAttacker (pieces afterMove) recaptures of
                 None \<Rightarrow> Some gain
               | Some bestRecapture \<Rightarrow>
                   Option.bind (staticExchangeEvaluation afterMove bestRecapture)
                     (\<lambda>continuation.
                        Some (gain - getPieceValue (pieceAt (pieces p) (from m)) - continuation)))))"

section \<open>Capture search with the visited squares recorded\<close>

text \<open>
  A move keeps only the first and the last square of the capturing piece. To speak about the
  squares in between, \<open>findCaptureSequencesTraced\<close> is \<open>findCaptureSequences\<close> with one
  addition: each recorded sequence comes with \<^verbatim>\<open>[...path, currentPos]\<close>, the squares the
  piece stood on, in order.
\<close>

function findCaptureSequencesTraced ::
  "grid \<Rightarrow> square \<Rightarrow> square list \<Rightarrow> square list \<Rightarrow> square list \<Rightarrow> player \<Rightarrow> nat
     \<Rightarrow> (square list \<times> move) list" where
  "findCaptureSequencesTraced g currentPos path capturedSoFar visitedPositions player recursionDepth =
     (if recursionDepth > 20 then []
      else if currentPos \<in> set visitedPositions then []
      else
        (let jumps = jumpsFrom g currentPos capturedSoFar player
         in concat (map (\<lambda>j. findCaptureSequencesTraced
                              (applyJump g currentPos (fst j) (snd j))
                              (snd j)
                              (path @ [currentPos])
                              (capturedSoFar @ [fst j])
                              (visitedPositions @ [currentPos])
                              player
                              (recursionDepth + 1)) jumps)
            @ (if jumps = [] \<and> capturedSoFar \<noteq> []
               then [(path @ [currentPos],
                      \<lparr>from = (case path of [] \<Rightarrow> currentPos | p0 # _ \<Rightarrow> p0),
                       to = currentPos, captures = capturedSoFar\<rparr>)]
               else [])))"
  by pat_completeness auto
termination
  by (relation "measure (\<lambda>(g, pos, path, cap, vis, pl, depth). 21 - depth)") auto

section \<open>Positions as objects that share their grid (ai.safety.js, ai.tactics.js)\<close>

text \<open>
  \<^verbatim>\<open>{...position}\<close> copies the fields of a position object, so the copy has the same grid
  array as the original, and a write to \<^verbatim>\<open>copy.pieces[r][c]\<close> is a write to the
  original's grid. The store maps the address of a grid to its contents; a position object
  holds the address of its grid and its player to move. Only whole grids are ever shared
  (a fresh grid is made row by row), so a grid is one object of the store.
\<close>

record store =
  grids :: "nat \<Rightarrow> grid"
  nextFree :: nat

record positionObj =
  piecesRef :: nat
  playerToMove :: player
  historyOf :: "poskey list"

definition positionIn :: "store \<Rightarrow> positionObj \<Rightarrow> position" where
  "positionIn st po =
     \<lparr>pieces = grids st (piecesRef po), currentPlayer = playerToMove po, history = historyOf po\<rparr>"

text \<open>\<^verbatim>\<open>makeMove\<close> on the store: the new position gets a grid of its own.\<close>

definition makeMoveObj :: "store \<Rightarrow> positionObj \<Rightarrow> move \<Rightarrow> store \<times> positionObj" where
  "makeMoveObj st po m =
     (let newPosition = makeMove (positionIn st po) m;
          a = nextFree st
      in (st\<lparr>grids := (grids st)(a := pieces newPosition), nextFree := a + 1\<rparr>,
          \<lparr>piecesRef = a, playerToMove = currentPlayer newPosition,
           historyOf = history newPosition\<rparr>))"

text \<open>
  \<^verbatim>\<open>countAttackers\<close>: \<^verbatim>\<open>testPosition\<close> shares the grid; a dummy piece of the attacked side
  is written to the target square, the captures of the attacking player are counted, and the
  original content is written back.
\<close>

definition countAttackersObj :: "store \<Rightarrow> positionObj \<Rightarrow> int \<Rightarrow> int \<Rightarrow> player \<Rightarrow> store \<times> nat" where
  "countAttackersObj st po r c attackingPlayer =
     (let a = piecesRef po;
          originalPiece = cell (grids st a) r c;
          dummyPiece = (if attackingPlayer = PLAYER_WHITE then BLACK else WHITE);
          st1 = st\<lparr>grids := (grids st)(a := setCell (grids st a) r c dummyPiece)\<rparr>;
          caps = getAvailableCaptures
                   \<lparr>pieces = grids st1 a, currentPlayer = attackingPlayer, history = historyOf po\<rparr>;
          attackers = length (filter (\<lambda>m. capturesSquare m \<lparr>row = r, col = c\<rparr>) caps);
          st2 = st1\<lparr>grids := (grids st1)(a := setCell (grids st1 a) r c originalPiece)\<rparr>
      in (st2, attackers))"

text \<open>
  \<^verbatim>\<open>detectPinsAndSkewers\<close>: for every square holding a piece of the side to move,
  \<^verbatim>\<open>testPos = {...position}\<close> shares the grid, the square is emptied through \<^verbatim>\<open>testPos\<close>,
  and the opponent's captures are examined. Nothing is written back. Each later square is
  read from the grid as the earlier iterations left it.
\<close>

record pin =
  pinned :: "square \<times> int"
  exposed :: square
  exposedValue :: int
  pinner :: square

definition pinsOfCapture :: "grid \<Rightarrow> square \<Rightarrow> piece \<Rightarrow> move \<Rightarrow> pin list" where
  "pinsOfCapture g s pc cap =
     (let exposedPieces = filter (\<lambda>target. row target \<noteq> row s \<or> col target \<noteq> col s) (captures cap)
      in if length exposedPieces > 0 then
           (let pinnedValue = getPieceValue pc;
                exposedV = foldl max (getPieceValue (pieceAt g (hd exposedPieces)))
                             (map (\<lambda>ep. getPieceValue (pieceAt g ep)) (tl exposedPieces))
            in if exposedV > pinnedValue
               then [\<lparr>pinned = (s, pinnedValue), exposed = hd exposedPieces,
                      exposedValue = exposedV, pinner = from cap\<rparr>]
               else [])
         else [])"

definition detectPinsStep :: "positionObj \<Rightarrow> store \<times> pin list \<Rightarrow> square \<Rightarrow> store \<times> pin list" where
  "detectPinsStep po acc s =
     (let st = fst acc;
          a = piecesRef po;
          pc = pieceAt (grids st a) s
      in if \<not> isPlayerPiece pc (playerToMove po) then acc
         else
           (let st1 = st\<lparr>grids := (grids st)(a := setPiece (grids st a) s NONE)\<rparr>;
                caps = getAvailableCaptures
                         \<lparr>pieces = grids st1 a,
                          currentPlayer = (if playerToMove po = PLAYER_WHITE then PLAYER_BLACK
                                           else PLAYER_WHITE),
                          history = historyOf po\<rparr>
            in (st1, snd acc @ concat (map (pinsOfCapture (grids st1 a) s pc) caps))))"

definition detectPinsAndSkewers :: "store \<Rightarrow> positionObj \<Rightarrow> store \<times> pin list" where
  "detectPinsAndSkewers st po = foldl (detectPinsStep po) (st, []) boardSquares"

section \<open>Move safety (ai.safety.js)\<close>

definition getPieceCapturesFrom :: "position \<Rightarrow> square \<Rightarrow> move list" where
  "getPieceCapturesFrom p piecePos =
     (let pl = (if pieceAt (pieces p) piecePos = WHITE \<or> pieceAt (pieces p) piecePos = WHITE_KING
                then PLAYER_WHITE else PLAYER_BLACK)
      in findCaptureSequences (pieces p) piecePos [] [] [] pl 0)"

text \<open>
  The scan of \<^verbatim>\<open>countLongRangeAttackers\<close> along one diagonal: at most eight squares away,
  the first piece met ends the scan; it counts when it is a king of the attacking player and
  the square on the other side of the target is on the board and empty.
\<close>

function longRangeAttackerInDir ::
  "grid \<Rightarrow> int \<Rightarrow> int \<Rightarrow> player \<Rightarrow> direction \<Rightarrow> int \<Rightarrow> int \<Rightarrow> nat \<Rightarrow> nat" where
  "longRangeAttackerInDir g targetRow targetCol attackingPlayer d r c distance =
     (if isValidSquare r c \<and> distance \<le> 8 then
        (let pc = cell g r c in
         if pc \<noteq> NONE then
           (if (attackingPlayer = PLAYER_WHITE \<and> pc = WHITE_KING)
               \<or> (attackingPlayer = PLAYER_BLACK \<and> pc = BLACK_KING)
            then (let landR = targetRow - dy d; landC = targetCol - dx d in
                  if isValidSquare landR landC \<and> cell g landR landC = NONE then 1 else 0)
            else 0)
         else longRangeAttackerInDir g targetRow targetCol attackingPlayer d
                (r + dy d) (c + dx d) (distance + 1))
      else 0)"
  by pat_completeness auto
termination
  by (relation "measure (\<lambda>(g, tr, tc, pl, d, r, c, distance). 9 - distance)") auto

definition countLongRangeAttackers :: "position \<Rightarrow> int \<Rightarrow> int \<Rightarrow> player \<Rightarrow> nat" where
  "countLongRangeAttackers p r c attackingPlayer =
     sum_list (map (\<lambda>d. longRangeAttackerInDir (pieces p) r c attackingPlayer d
                           (r + dy d) (c + dx d) 1) KING_MOVES)"

function longRangeDefenderInDir :: "grid \<Rightarrow> player \<Rightarrow> direction \<Rightarrow> int \<Rightarrow> int \<Rightarrow> nat" where
  "longRangeDefenderInDir g pl d r c =
     (if isValidSquare r c then
        (let pc = cell g r c in
         if pc \<noteq> NONE then
           (if (pl = PLAYER_WHITE \<and> pc = WHITE_KING) \<or> (pl = PLAYER_BLACK \<and> pc = BLACK_KING)
            then 1 else 0)
         else longRangeDefenderInDir g pl d (r + dy d) (c + dx d))
      else 0)"
  by pat_completeness auto
termination
  apply (relation "measure (\<lambda>(g, pl, d, r, c). nat (if dy d = 1 then BOARD_SIZE - r else r + 1))")
   apply simp
  subgoal for g pl d r c by (cases d) (auto simp: isValidSquare_def BOARD_SIZE_def)
  done

definition countLongRangeDefenders :: "position \<Rightarrow> int \<Rightarrow> int \<Rightarrow> player \<Rightarrow> nat" where
  "countLongRangeDefenders p r c pl =
     sum_list (map (\<lambda>d. longRangeDefenderInDir (pieces p) pl d (r + dy d) (c + dx d)) KING_MOVES)"

text \<open>
  \<^verbatim>\<open>isProtected\<close>: neighbours of the player protect; a neighbour of the opponent attacks
  when one of its capture sequences takes the square; long-range king attackers are added.
\<close>

definition isProtected :: "position \<Rightarrow> int \<Rightarrow> int \<Rightarrow> player \<Rightarrow> bool" where
  "isProtected p r0 c0 pl =
     (let opponent = (if pl = PLAYER_WHITE then PLAYER_BLACK else PLAYER_WHITE);
          neighbours = filter (\<lambda>s. isValidSquare (row s) (col s))
                         (map (\<lambda>d. \<lparr>row = r0 + dy d, col = c0 + dx d\<rparr>) KING_MOVES);
          protectors = length (filter (\<lambda>s. isPlayerPiece (pieceAt (pieces p) s) pl) neighbours);
          attackers = length (filter
                        (\<lambda>s. \<not> isPlayerPiece (pieceAt (pieces p) s) pl
                              \<and> isPlayerPiece (pieceAt (pieces p) s) opponent
                              \<and> list_ex (\<lambda>cap. capturesSquare cap \<lparr>row = r0, col = c0\<rparr>)
                                   (getPieceCapturesFrom (p\<lparr>currentPlayer := opponent\<rparr>) s))
                        neighbours);
          kingAttackers = countLongRangeAttackers p r0 c0 opponent
      in protectors \<ge> attackers + kingAttackers \<and> protectors > 0)"

text \<open>\<^verbatim>\<open>canDefend\<close> is true of a defender on a diagonally adjacent square.\<close>

definition canDefend :: "square \<Rightarrow> square \<Rightarrow> bool" where
  "canDefend defender target =
     (\<bar>row defender - row target\<bar> = 1 \<and> \<bar>col defender - col target\<bar> = 1)"

definition countDefenders :: "position \<Rightarrow> int \<Rightarrow> int \<Rightarrow> player \<Rightarrow> nat" where
  "countDefenders p r0 c0 pl =
     length (filter (\<lambda>s. isValidSquare (row s) (col s)
                          \<and> isPlayerPiece (pieceAt (pieces p) s) pl
                          \<and> canDefend s \<lparr>row = r0, col = c0\<rparr>)
               (map (\<lambda>d. \<lparr>row = r0 + dy d, col = c0 + dx d\<rparr>) KING_MOVES))
     + countLongRangeDefenders p r0 c0 pl"

text \<open>
  \<^verbatim>\<open>countAttackers\<close> as a function of the position: the value computed between the write
  of the dummy piece and the write that restores the square (see \<open>countAttackersObj\<close>).
\<close>

definition countAttackers :: "position \<Rightarrow> int \<Rightarrow> int \<Rightarrow> player \<Rightarrow> nat" where
  "countAttackers p r c attackingPlayer =
     (let dummyPiece = (if attackingPlayer = PLAYER_WHITE then BLACK else WHITE);
          caps = getAvailableCaptures
                   \<lparr>pieces = setCell (pieces p) r c dummyPiece, currentPlayer = attackingPlayer,
                    history = history p\<rparr>
      in length (filter (\<lambda>m. capturesSquare m \<lparr>row = r, col = c\<rparr>) caps))"

definition evaluateExchange :: "position \<Rightarrow> int \<Rightarrow> int \<Rightarrow> int" where
  "evaluateExchange p r c =
     (let pc = cell (pieces p) r c in
      if pc = NONE then 0
      else
        (let pl = (if pc = WHITE \<or> pc = WHITE_KING then PLAYER_WHITE else PLAYER_BLACK);
             opponent = (if pl = PLAYER_WHITE then PLAYER_BLACK else PLAYER_WHITE);
             ourValue = getPieceValue pc;
             defenders = countDefenders p r c pl;
             attackers = countAttackers p r c opponent
         in if attackers = 0 then 0
            else if defenders \<ge> attackers then 0
            else - ourValue))"

definition evaluateBestRecapture :: "position \<Rightarrow> int \<Rightarrow> int \<Rightarrow> int" where
  "evaluateBestRecapture p r c =
     (let opponent = (if currentPlayer p = PLAYER_WHITE then PLAYER_BLACK else PLAYER_WHITE);
          recaptures = getAvailableCaptures (p\<lparr>currentPlayer := opponent\<rparr>)
      in foldl (\<lambda>maxGain recap.
                  max maxGain
                    (foldl (\<lambda>acc cap. acc + getPieceValue (pieceAt (pieces p) cap)) 0
                       (captures recap)))
           0 recaptures)"

text \<open>
  \<^verbatim>\<open>isMoveReallySafe\<close>. A capture is judged by the static exchange evaluation, whose
  recursion makes the result optional. For a quiet move, the position after the move gets
  the mover back as the side to move (\<^verbatim>\<open>afterMove.currentPlayer = position.currentPlayer\<close>)
  before the captures \<^verbatim>\<open>responses\<close> are generated. The two thresholds
  \<^verbatim>\<open>-pieceValue / 2\<close> and \<^verbatim>\<open>pieceValue * 0.8\<close> are compared in exact arithmetic.
\<close>

definition isMoveReallySafe :: "position \<Rightarrow> move \<Rightarrow> bool option" where
  "isMoveReallySafe p m =
     (if length (captures m) > 0 then
        map_option (\<lambda>see. see \<ge> 0) (staticExchangeEvaluation p m)
      else
        (let afterMove = (makeMove p m)\<lparr>currentPlayer := currentPlayer p\<rparr>;
             responses = getAvailableCaptures afterMove
         in if length responses = 0 then Some True
            else if \<not> list_ex (\<lambda>response. capturesSquare response (to m)) responses then Some True
            else
              (let ourPiece = pieceAt (pieces p) (from m);
                   pieceValue = getPieceValue ourPiece
               in if isProtected afterMove (row (to m)) (col (to m)) (currentPlayer p)
                  then Some (rat_of_int (evaluateExchange afterMove (row (to m)) (col (to m)))
                               \<ge> - rat_of_int pieceValue / 2)
                  else Some (rat_of_int (evaluateBestRecapture afterMove (row (to m)) (col (to m)))
                               \<ge> rat_of_int pieceValue * (8 / 10)))))"

section \<open>Search driver (ai.search.js)\<close>

subsection \<open>Numbers with infinities\<close>

fun neg :: "num \<Rightarrow> num" where
  "neg NegInfinity = Infinity"
| "neg (Num a) = Num (- a)"
| "neg Infinity = NegInfinity"

fun addNum :: "num \<Rightarrow> rat \<Rightarrow> num" where
  "addNum NegInfinity r = NegInfinity"
| "addNum (Num a) r = Num (a + r)"
| "addNum Infinity r = Infinity"

fun absNum :: "num \<Rightarrow> num" where
  "absNum NegInfinity = Infinity"
| "absNum (Num a) = Num \<bar>a\<bar>"
| "absNum Infinity = Infinity"

subsection \<open>The state of the engine and what surrounds the driver\<close>

text \<open>
  The fields of the \<^verbatim>\<open>ai\<close> object that \<^verbatim>\<open>getBestMove\<close> and \<^verbatim>\<open>searchBestMove\<close> write,
  the number of \<^verbatim>\<open>Date.now()\<close> calls made so far, and the rest of the object (caches,
  history table, statistics) as an opaque component. Messages posted to the host are not
  part of the model.
\<close>

record 'a world =
  ticks :: nat
  nodeCount :: nat
  searchAborted :: bool
  positionHistory :: "poskey list"
  killerMoves :: "(move option \<times> move option) list"
  rest :: 'a

text \<open>
  What the driver takes from outside itself is a parameter: the clock (the value of the
  \<open>n\<close>-th call of \<^verbatim>\<open>Date.now()\<close>), the difficulty level, the opening book's
  \<^verbatim>\<open>getMove\<close> (absent when no book is installed), and the results of the functions the
  driver calls for numbers: \<^verbatim>\<open>evaluateCaptureSequence\<close>, the ordering score
  \<^verbatim>\<open>orderMovesAtRoot\<close> gives to the \<open>i\<close>-th move (it depends on the caches and on
  \<^verbatim>\<open>Math.random\<close>) with its effect on the engine state, \<^verbatim>\<open>negamax\<close> with its effect on
  the engine state, the index of the move that the (randomised) comparison of
  \<^verbatim>\<open>quickEvaluateMove\<close> values brings to the front of the safe moves, and
  \<^verbatim>\<open>quiescenceSearch\<close> with its effect on the engine state. The theorems about the
  driver and about the entry of \<^verbatim>\<open>negamax\<close> hold for every value of these parameters.
\<close>

record 'a env =
  clock :: "nat \<Rightarrow> rat"
  level :: nat
  openingBook :: "(position \<Rightarrow> string list option \<Rightarrow> move option) option"
  evaluateCaptureSequence :: "position \<Rightarrow> move \<Rightarrow> rat"
  rootOrderScore :: "'a world \<Rightarrow> position \<Rightarrow> nat \<Rightarrow> move \<Rightarrow> rat"
  rootOrderEffect :: "'a world \<Rightarrow> position \<Rightarrow> 'a world"
  negamaxResult :: "'a world \<Rightarrow> position \<Rightarrow> int \<Rightarrow> num \<Rightarrow> num \<Rightarrow> rat \<Rightarrow> rat \<Rightarrow> nat \<Rightarrow> nat
                      \<Rightarrow> num \<times> 'a world"
  fallbackChoice :: "'a world \<Rightarrow> position \<Rightarrow> move list \<Rightarrow> nat"
  quiescenceResult :: "'a world \<Rightarrow> position \<Rightarrow> num \<Rightarrow> num \<Rightarrow> int \<Rightarrow> rat \<Rightarrow> rat \<Rightarrow> nat
                         \<Rightarrow> num \<times> 'a world"

definition dateNow :: "'a env \<Rightarrow> 'a world \<Rightarrow> rat \<times> 'a world" where
  "dateNow e w = (clock e (ticks w), w\<lparr>ticks := ticks w + 1\<rparr>)"

text \<open>The tables of \<^verbatim>\<open>AI_PARAMS\<close> with the defaults of the \<^verbatim>\<open>||\<close> at their uses.\<close>

definition MAX_DEPTH :: "nat \<Rightarrow> int" where
  "MAX_DEPTH l = (if l = 1 then 4 else if l = 2 then 6 else if l = 3 then 8 else if l = 4 then 10
                  else if l = 5 then 12 else if l = 6 then 14 else 6)"

definition TIME_ALLOCATION :: "nat \<Rightarrow> rat" where
  "TIME_ALLOCATION l = (if l = 1 then 500 else if l = 2 then 1000 else if l = 3 then 2000
                        else if l = 4 then 4000 else if l = 5 then 8000 else if l = 6 then 15000
                        else 3000)"

definition COMPLEX_POSITION_MULTIPLIER :: "nat \<Rightarrow> rat" where
  "COMPLEX_POSITION_MULTIPLIER l =
     (if l = 1 then 1 else if l = 2 then 11 / 10 else if l = 3 then 12 / 10
      else if l = 4 then 13 / 10 else if l = 5 then 15 / 10 else if l = 6 then 18 / 10 else 1)"

definition INITIAL_DELTA :: rat where
  "INITIAL_DELTA = 50"

text \<open>
  \<^verbatim>\<open>generateKey\<close> concatenates the contents of the dark squares, rows first, and the
  player; the key is the list of these contents with the player.
\<close>

definition generateKey :: "(int \<Rightarrow> int \<Rightarrow> bool) \<Rightarrow> position \<Rightarrow> poskey" where
  "generateKey dark p =
     (map (pieceAt (pieces p)) (filter (\<lambda>s. dark (row s) (col s)) boardSquares), currentPlayer p)"

definition countTotalPieces :: "position \<Rightarrow> nat" where
  "countTotalPieces p = length (filter (\<lambda>s. pieceAt (pieces p) s \<noteq> NONE) boardSquares)"

subsection \<open>Killer moves\<close>

definition isSameMove :: "move option \<Rightarrow> move option \<Rightarrow> bool" where
  "isSameMove move1 move2 =
     (case (move1, move2) of
        (Some a, Some b) \<Rightarrow> row (from a) = row (from b) \<and> col (from a) = col (from b)
                            \<and> row (to a) = row (to b) \<and> col (to a) = col (to b)
      | _ \<Rightarrow> False)"

definition updateKillerMoves ::
  "move \<Rightarrow> nat \<Rightarrow> (move option \<times> move option) list \<Rightarrow> (move option \<times> move option) list" where
  "updateKillerMoves m ply killers =
     (if ply \<ge> length killers then killers
      else if length (captures m) > 0 then killers
      else if \<not> isSameMove (Some m) (fst (killers ! ply))
           then killers[ply := (Some m, fst (killers ! ply))]
           else killers)"

subsection \<open>searchBestMove\<close>

record searchResult =
  r_move :: "move option"
  r_score :: num
  r_timeout :: bool

definition orderMovesAtRoot :: "'a env \<Rightarrow> 'a world \<Rightarrow> position \<Rightarrow> move list \<Rightarrow> move list" where
  "orderMovesAtRoot e w p ms =
     map snd (sort_key (\<lambda>im. - rootOrderScore e w p (fst im) (snd im)) (zip [0..<length ms] ms))"

definition orElseFirst :: "move option \<Rightarrow> move list \<Rightarrow> move option" where
  "orElseFirst bestMove ms =
     (case bestMove of Some m \<Rightarrow> Some m | None \<Rightarrow> (case ms of [] \<Rightarrow> None | m0 # _ \<Rightarrow> Some m0))"

text \<open>
  The loop over the ordered root moves; \<open>i\<close> is the index of the move at the head of the
  remaining list, \<open>ms\<close> the whole ordered list. The state is the engine state, \<open>alpha\<close>,
  \<^verbatim>\<open>bestMove\<close> and \<^verbatim>\<open>bestScore\<close>.
\<close>

fun rootLoop ::
  "'a env \<Rightarrow> (int \<Rightarrow> int \<Rightarrow> bool) \<Rightarrow> position \<Rightarrow> int \<Rightarrow> num \<Rightarrow> rat \<Rightarrow> rat \<Rightarrow> move list \<Rightarrow> nat
     \<Rightarrow> move list \<Rightarrow> 'a world \<Rightarrow> num \<Rightarrow> move option \<Rightarrow> num \<Rightarrow> searchResult \<times> 'a world" where
  "rootLoop e dark p depth beta startTime timeLimit ms i [] w alpha bestMove bestScore =
     (\<lparr>r_move = orElseFirst bestMove ms, r_score = bestScore, r_timeout = False\<rparr>, w)"
| "rootLoop e dark p depth beta startTime timeLimit ms i (mv # remaining) w alpha bestMove bestScore =
     (let now = fst (dateNow e w); w1 = snd (dateNow e w) in
      if now - startTime > timeLimit \<or> searchAborted w1
      then (\<lparr>r_move = orElseFirst bestMove ms, r_score = bestScore, r_timeout = True\<rparr>, w1)
      else
        (let newPosition = (makeMove p mv)\<lparr>history := history p @ [generateKey dark p]\<rparr>;
             full = (\<lambda>w'. negamaxResult e w' newPosition (depth - 1) (neg beta) (neg alpha)
                            startTime timeLimit 0 1);
             first = (if i = 0 then full w1
                      else negamaxResult e w1 newPosition (depth - 1) (addNum (neg alpha) (- 1))
                             (neg alpha) startTime timeLimit 0 1);
             again = (i \<noteq> 0 \<and> neg (fst first) > alpha \<and> neg (fst first) < beta);
             score = (if again then neg (fst (full (snd first))) else neg (fst first));
             w2 = (if again then snd (full (snd first)) else snd first);
             bestScore' = (if score > bestScore then score else bestScore);
             bestMove' = (if score > bestScore then Some mv else bestMove);
             alpha' = max alpha score
         in if alpha' \<ge> beta
            then (\<lparr>r_move = orElseFirst bestMove' ms, r_score = bestScore', r_timeout = False\<rparr>,
                  w2\<lparr>killerMoves := updateKillerMoves mv 0 (killerMoves w2)\<rparr>)
            else rootLoop e dark p depth beta startTime timeLimit ms (i + 1) remaining
                   w2 alpha' bestMove' bestScore'))"

definition searchBestMove ::
  "'a env \<Rightarrow> (int \<Rightarrow> int \<Rightarrow> bool) \<Rightarrow> 'a world \<Rightarrow> position \<Rightarrow> int \<Rightarrow> num \<Rightarrow> num \<Rightarrow> rat \<Rightarrow> rat
     \<Rightarrow> searchResult \<times> 'a world" where
  "searchBestMove e dark w p depth alpha beta startTime timeLimit =
     (let ms = orderMovesAtRoot e w p (generateMoves dark p);
          w0 = rootOrderEffect e w p
      in rootLoop e dark p depth beta startTime timeLimit ms 0 ms w0 alpha None NegInfinity)"

subsection \<open>getBestMove\<close>

text \<open>
  \<^verbatim>\<open>quickTacticalScan\<close>: the forced move, if any. The captures among the moves are sorted
  (stably) by descending \<^verbatim>\<open>evaluateCaptureSequence\<close>.
\<close>

definition quickTacticalScan :: "'a env \<Rightarrow> position \<Rightarrow> move list \<Rightarrow> move option" where
  "quickTacticalScan e p ms =
     (let caps = filter (\<lambda>m. length (captures m) > 0) ms in
      if length caps > 0 then
        (let sorted = sort_key (\<lambda>m. - evaluateCaptureSequence e p m) caps in
         if length sorted = 1
            \<or> (length sorted > 1
                \<and> evaluateCaptureSequence e p (sorted ! 0)
                     > evaluateCaptureSequence e p (sorted ! 1) + 100)
         then Some (sorted ! 0) else None)
      else None)"

definition allocateTime :: "'a env \<Rightarrow> position \<Rightarrow> nat \<Rightarrow> rat \<Rightarrow> rat" where
  "allocateTime e p moveNumber baseTime =
     (let time0 = baseTime;
          time1 = (if moveNumber < 10 then time0 * (7 / 10) else time0);
          time2 = (if countTotalPieces p \<le> 10 then time1 * (3 / 2) else time1);
          caps = getAvailableCaptures p;
          maxCaptures = (if length caps > 0
                         then foldl max 0 (map (\<lambda>m. length (captures m)) caps) else 0);
          time3 = (if length caps > 0
                   then (if maxCaptures \<ge> 3 then time2 * 2
                         else if maxCaptures \<ge> 2 then time2 * (3 / 2) else time2)
                   else time2);
          multiplier = COMPLEX_POSITION_MULTIPLIER (level e)
      in min (time3 * multiplier) (baseTime * 3))"

text \<open>The variables of the iterative-deepening loop, with the engine state.\<close>

record 'a deepening =
  d_world :: "'a world"
  d_bestMove :: move
  d_bestScore :: num
  d_lastScore :: num
  d_timeLimit :: rat

text \<open>
  One pass of the loop body at a depth. \<open>Exhausted\<close> is the \<^verbatim>\<open>break\<close> on the time budget
  or the abort flag (before the search of the depth, or after it has reported a timeout),
  \<open>Decisive\<close> the \<^verbatim>\<open>break\<close> on a score beyond 5000, \<open>NextDepth\<close> the end of the body.
  The progress message of a completed depth reads the clock once more.
\<close>

datatype 'a step = Exhausted "'a deepening" | Decisive "'a deepening" | NextDepth "'a deepening"

definition deepenStep ::
  "'a env \<Rightarrow> (int \<Rightarrow> int \<Rightarrow> bool) \<Rightarrow> position \<Rightarrow> rat \<Rightarrow> int \<Rightarrow> int \<Rightarrow> 'a deepening \<Rightarrow> 'a step" where
  "deepenStep e dark p startTime maxDepth depth st =
     (let now = fst (dateNow e (d_world st)); w1 = snd (dateNow e (d_world st));
          remainingTime = d_timeLimit st - (now - startTime)
      in if remainingTime < d_timeLimit st * (1 / 10) \<or> searchAborted w1
         then Exhausted (st\<lparr>d_world := w1\<rparr>)
         else
           (let narrow = (depth > 3 \<and> absNum (d_lastScore st) < Num 1000);
                alpha = (if narrow then addNum (d_lastScore st) (- INITIAL_DELTA) else NegInfinity);
                beta = (if narrow then addNum (d_lastScore st) INITIAL_DELTA else Infinity);
                res1 = searchBestMove e dark w1 p depth alpha beta startTime (d_timeLimit st);
                failed = (r_score (fst res1) \<le> alpha \<or> r_score (fst res1) \<ge> beta);
                retry = searchBestMove e dark (snd res1) p depth NegInfinity Infinity
                          startTime (d_timeLimit st);
                result = (if failed \<and> r_move (fst retry) \<noteq> None
                          then (fst res1)\<lparr>r_move := r_move (fst retry),
                                           r_score := r_score (fst retry)\<rparr>
                          else fst res1);
                w3 = (if failed then snd retry else snd res1)
            in if r_timeout result \<or> searchAborted w3
               then Exhausted (st\<lparr>d_world := w3\<rparr>)
               else
                 (case r_move result of
                    None \<Rightarrow> NextDepth (st\<lparr>d_world := w3\<rparr>)
                  | Some mv \<Rightarrow>
                      (let st1 = st\<lparr>d_world := snd (dateNow e w3), d_bestMove := mv,
                                     d_bestScore := r_score result,
                                     d_lastScore := r_score result\<rparr>
                       in if absNum (r_score result) > Num 5000 then Decisive st1
                          else if r_score result > Num 1000 \<and> depth < maxDepth - 2
                               then NextDepth (st1\<lparr>d_timeLimit := d_timeLimit st * (12 / 10)\<rparr>)
                               else NextDepth st1))))"

function iterativeDeepening ::
  "'a env \<Rightarrow> (int \<Rightarrow> int \<Rightarrow> bool) \<Rightarrow> position \<Rightarrow> rat \<Rightarrow> int \<Rightarrow> int \<Rightarrow> 'a deepening \<Rightarrow> 'a deepening" where
  "iterativeDeepening e dark p startTime maxDepth depth st =
     (if depth \<le> maxDepth then
        (case deepenStep e dark p startTime maxDepth depth st of
           Exhausted st' \<Rightarrow> st'
         | Decisive st' \<Rightarrow> st'
         | NextDepth st' \<Rightarrow> iterativeDeepening e dark p startTime maxDepth (depth + 1) st')
      else st)"
  by pat_completeness auto
termination
  by (relation "measure (\<lambda>(e, dark, p, startTime, maxDepth, depth, st). nat (maxDepth + 1 - depth))")
     auto

text \<open>
  The final gate: when the chosen move fails \<^verbatim>\<open>isMoveReallySafe\<close>, the safe moves are
  sorted by \<^verbatim>\<open>quickEvaluateMove\<close> and the first of them replaces it. \<open>None\<close> stands for a
  safety check that does not return.
\<close>

definition finalSafetyCheck ::
  "'a env \<Rightarrow> 'a world \<Rightarrow> position \<Rightarrow> move list \<Rightarrow> move \<Rightarrow> move option" where
  "finalSafetyCheck e w p ms bestMove =
     (case isMoveReallySafe p bestMove of
        None \<Rightarrow> None
      | Some True \<Rightarrow> Some bestMove
      | Some False \<Rightarrow>
          (case those (map (isMoveReallySafe p) ms) of
             None \<Rightarrow> None
           | Some flags \<Rightarrow>
               (let safeMoves = map fst (filter snd (zip ms flags)) in
                if length safeMoves > 0
                then Some (safeMoves ! (fallbackChoice e w p safeMoves mod length safeMoves))
                else Some bestMove)))"

definition resetSearch :: "'a world \<Rightarrow> 'a world" where
  "resetSearch w = w\<lparr>nodeCount := 0, searchAborted := False, positionHistory := [],
                     killerMoves := replicate 100 (None, None)\<rparr>"

definition bookMove :: "'a env \<Rightarrow> position \<Rightarrow> string list option \<Rightarrow> move option" where
  "bookMove e p moveHistoryNotations =
     (let moveNumber = (case moveHistoryNotations of None \<Rightarrow> 0 | Some h \<Rightarrow> length h) in
      case openingBook e of
        None \<Rightarrow> None
      | Some getMove \<Rightarrow>
          if moveNumber < 20
          then getMove p moveHistoryNotations
          else None)"

definition searchSetup ::
  "'a env \<Rightarrow> position \<Rightarrow> string list option \<Rightarrow> move list \<Rightarrow> 'a world \<Rightarrow> int \<times> 'a deepening" where
  "searchSetup e p moveHistoryNotations ms w =
     (let moveNumber = (case moveHistoryNotations of None \<Rightarrow> 0 | Some h \<Rightarrow> length h);
          baseTime = TIME_ALLOCATION (level e);
          timeLimit = allocateTime e p moveNumber baseTime;
          maxDepth = MAX_DEPTH (level e)
      in (if length ms \<le> 3 then maxDepth + 1 else maxDepth,
          \<lparr>d_world = w, d_bestMove = ms ! 0, d_bestScore = NegInfinity, d_lastScore = Num 0,
           d_timeLimit = (if length ms \<le> 3 then timeLimit * (3 / 2) else timeLimit)\<rparr>))"

text \<open>
  \<^verbatim>\<open>getBestMove\<close> returns the move (\<open>None\<close> for \<^verbatim>\<open>null\<close>) and the engine state; the outer
  \<open>None\<close> stands for a call that does not return.
\<close>

definition getBestMove ::
  "'a env \<Rightarrow> (int \<Rightarrow> int \<Rightarrow> bool) \<Rightarrow> 'a world \<Rightarrow> position \<Rightarrow> string list option
     \<Rightarrow> (move option \<times> 'a world) option" where
  "getBestMove e dark w p moveHistoryNotations =
     (let startTime = fst (dateNow e w);
          w1 = resetSearch (snd (dateNow e w));
          ms = generateMoves dark p
      in if length ms = 0 then Some (None, w1)
         else if length ms = 1 then Some (Some (ms ! 0), w1)
         else
           (case quickTacticalScan e p ms of
              Some forced \<Rightarrow> Some (Some forced, w1)
            | None \<Rightarrow>
                (case bookMove e p moveHistoryNotations of
                   Some book \<Rightarrow> Some (Some book, w1)
                 | None \<Rightarrow>
                     (let start = searchSetup e p moveHistoryNotations ms w1;
                          st = iterativeDeepening e dark p startTime (fst start) 1 (snd start)
                      in case finalSafetyCheck e (d_world st) p ms (d_bestMove st) of
                           None \<Rightarrow> None
                         | Some best \<Rightarrow> Some (Some best, snd (dateNow e (d_world st)))))))"

section \<open>Static evaluation (ai.evaluation.js)\<close>

text \<open>
  The evaluation adds integers and products with the decimal constants 0.5 to 2.0 and 4.5;
  the model computes with the rational numbers these constants denote.
\<close>

datatype gamePhase = Opening | Middlegame | Endgame

definition getGamePhase :: "position \<Rightarrow> gamePhase" where
  "getGamePhase p =
     (let totalPieces = countTotalPieces p in
      if totalPieces > 16 then Opening else if totalPieces > 10 then Middlegame else Endgame)"

definition MAN_PST :: "rat list list" where
  "MAN_PST =
     [[  0,  30,   0,  30,   0,  30,   0,  30,   0,  30],
      [ 25,   0,  28,   0,  28,   0,  28,   0,  28,   0],
      [  0,  22,   0,  25,   0,  25,   0,  25,   0,  22],
      [ 20,   0,  23,   0,  26,   0,  26,   0,  23,   0],
      [  0,  18,   0,  20,   0,  20,   0,  20,   0,  18],
      [ 15,   0,  17,   0,  17,   0,  17,   0,  17,   0],
      [  0,  10,   0,  12,   0,  12,   0,  12,   0,  10],
      [  5,   0,   8,   0,   8,   0,   8,   0,   8,   0],
      [  0,   0,   0,   5,   0,   5,   0,   5,   0,   0],
      [ -5,   0,  -5,   0,  -5,   0,  -5,   0,  -5,   0]]"

definition KING_PST :: "rat list list" where
  "KING_PST =
     [[ -5,   0,  -5,   0,  -5,   0,  -5,   0,  -5,   0],
      [  0,   5,   0,  10,   0,  10,   0,  10,   0,   5],
      [ -5,   0,  15,   0,  20,   0,  20,   0,  15,   0],
      [  0,  10,   0,  25,   0,  30,   0,  25,   0,  10],
      [ -5,   0,  20,   0,  35,   0,  35,   0,  20,   0],
      [  0,  10,   0,  25,   0,  30,   0,  25,   0,  10],
      [ -5,   0,  15,   0,  20,   0,  20,   0,  15,   0],
      [  0,   5,   0,  10,   0,  10,   0,  10,   0,   5],
      [ -5,   0,  -5,   0,  -5,   0,  -5,   0,  -5,   0],
      [-10,   0, -10,   0, -10,   0, -10,   0, -10,   0]]"

definition pst :: "rat list list \<Rightarrow> int \<Rightarrow> int \<Rightarrow> rat" where
  "pst t r c = t ! nat r ! nat c"

text \<open>A collected piece: \<^verbatim>\<open>{row, col, piece}\<close>.\<close>

type_synonym pieceInfo = "square \<times> piece"

definition whitePieces :: "position \<Rightarrow> pieceInfo list" where
  "whitePieces p =
     map (\<lambda>s. (s, pieceAt (pieces p) s))
       (filter (\<lambda>s. pieceAt (pieces p) s = WHITE \<or> pieceAt (pieces p) s = WHITE_KING) boardSquares)"

definition blackPieces :: "position \<Rightarrow> pieceInfo list" where
  "blackPieces p =
     map (\<lambda>s. (s, pieceAt (pieces p) s))
       (filter (\<lambda>s. pieceAt (pieces p) s \<noteq> NONE
                     \<and> \<not> (pieceAt (pieces p) s = WHITE \<or> pieceAt (pieces p) s = WHITE_KING))
          boardSquares)"

definition kingsOf :: "pieceInfo list \<Rightarrow> nat" where
  "kingsOf ps = length (filter (\<lambda>i. isKing (snd i)) ps)"

definition menOf :: "pieceInfo list \<Rightarrow> nat" where
  "menOf ps = length (filter (\<lambda>i. \<not> isKing (snd i)) ps)"

definition evaluatePiecePositionFlipped :: "pieceInfo \<Rightarrow> bool \<Rightarrow> gamePhase \<Rightarrow> rat" where
  "evaluatePiecePositionFlipped info isWhite phase =
     (let r = row (fst info); c = col (fst info); pc = snd info;
          mirroredCol = 9 - c;
          score1 =
            (if isKing pc then
               (let s0 = (if isWhite then pst KING_PST r mirroredCol
                          else pst KING_PST (9 - r) mirroredCol)
                in if phase = Endgame
                   then s0 + (15 - (\<bar>of_int r - 9 / 2\<bar> + \<bar>of_int mirroredCol - 9 / 2\<bar>)) * 2
                   else s0)
             else
               (let s0 = (if isWhite then pst MAN_PST r mirroredCol
                          else pst MAN_PST (9 - r) mirroredCol)
                in if isWhite
                   then s0 + of_int r * 3 + (if r \<ge> 7 then 20 else 0) + (if r = 8 then 30 else 0)
                   else s0 + of_int (9 - r) * 3 + (if r \<le> 2 then 20 else 0)
                          + (if r = 1 then 30 else 0)))
      in if \<not> isKing pc \<and> (r = 0 \<or> r = 9 \<or> c = 0 \<or> c = 9) then score1 - 5 else score1)"

subsection \<open>Tactical threats\<close>

definition countAttackersOn :: "position \<Rightarrow> pieceInfo \<Rightarrow> player \<Rightarrow> nat" where
  "countAttackersOn p target attackingPlayer =
     length (filter (\<lambda>m. capturesSquare m (fst target))
               (getAvailableCaptures
                  \<lparr>pieces = pieces p, currentPlayer = attackingPlayer, history = []\<rparr>))"

definition countDefendersOf :: "position \<Rightarrow> pieceInfo \<Rightarrow> player \<Rightarrow> nat" where
  "countDefendersOf p target defendingPlayer =
     length (filter (\<lambda>d. let r = row (fst target) + dy d; c = col (fst target) + dx d in
                          isValidSquare r c \<and> isPlayerPiece (cell (pieces p) r c) defendingPlayer)
               [UpLeft, UpRight, DownLeft, DownRight])"

definition detectForks :: "(int \<Rightarrow> int \<Rightarrow> bool) \<Rightarrow> position \<Rightarrow> player \<Rightarrow> nat" where
  "detectForks dark p pl =
     length (filter (\<lambda>m. length (captures m) \<ge> 2)
               (generateMoves dark \<lparr>pieces = pieces p, currentPlayer = pl, history = []\<rparr>))"

definition threatOn :: "position \<Rightarrow> player \<Rightarrow> player \<Rightarrow> piece \<Rightarrow> pieceInfo \<Rightarrow> rat" where
  "threatOn p attackingPlayer defendingPlayer king target =
     (let attackers = int (countAttackersOn p target attackingPlayer);
          defenders = int (countDefendersOf p target defendingPlayer)
      in if attackers > defenders
         then (if snd target = king then 150 else 60) * of_int (attackers - defenders)
         else 0)"

definition evaluateTacticalThreats :: "(int \<Rightarrow> int \<Rightarrow> bool) \<Rightarrow> position \<Rightarrow> rat" where
  "evaluateTacticalThreats dark p =
     sum_list (map (threatOn p PLAYER_WHITE PLAYER_BLACK BLACK_KING) (blackPieces p))
     - sum_list (map (threatOn p PLAYER_BLACK PLAYER_WHITE WHITE_KING) (whitePieces p))
     + of_nat (detectForks dark p PLAYER_WHITE) * 40
     - of_nat (detectForks dark p PLAYER_BLACK) * 40"

subsection \<open>Strategic control\<close>

definition keySquares :: "(int \<times> int \<times> rat) list" where
  "keySquares = [(4, 4, 10), (4, 5, 10), (5, 4, 10), (5, 5, 10),
                 (3, 3, 7), (3, 6, 7), (6, 3, 7), (6, 6, 7)]"

definition evaluateStrategicControl :: "position \<Rightarrow> gamePhase \<Rightarrow> rat" where
  "evaluateStrategicControl p phase =
     sum_list (map (\<lambda>(r, c, v).
                      let pc = cell (pieces p) r c in
                      if pc \<noteq> NONE then
                        (let controlValue = v * (if phase = Middlegame then 3 / 2 else 1) in
                         if pc = WHITE \<or> pc = WHITE_KING then controlValue else - controlValue)
                      else 0) keySquares)
     + sum_list (map (\<lambda>c. (if cell (pieces p) 0 c = WHITE \<or> cell (pieces p) 0 c = WHITE_KING
                             then 20 else 0)
                           + (if cell (pieces p) 9 c = BLACK \<or> cell (pieces p) 9 c = BLACK_KING
                              then - 20 else 0))
                   [0..BOARD_SIZE - 1])"

subsection \<open>Formations\<close>

text \<open>
  The set \<^verbatim>\<open>positions\<close> of keys \<^verbatim>\<open>"row,col"\<close> is the list of the squares of the pieces.
  The chain loop walks down the diagonal while the square is in the set; the squares of the
  set are squares of the board, so the walk ends at the edge at the latest, which the guard
  \<open>isValidSquare\<close> makes explicit.
\<close>

function chainBelow :: "square list \<Rightarrow> int \<Rightarrow> int \<Rightarrow> nat" where
  "chainBelow positions r c =
     (if isValidSquare r c \<and> \<lparr>row = r, col = c\<rparr> \<in> set positions
      then 1 + chainBelow positions (r + 1) (c + 1) else 0)"
  by pat_completeness auto
termination
  by (relation "measure (\<lambda>(ps, r, c). nat (BOARD_SIZE - r))")
     (auto simp: isValidSquare_def BOARD_SIZE_def)

definition countProtectors :: "square list \<Rightarrow> int \<Rightarrow> int \<Rightarrow> nat" where
  "countProtectors positions r c =
     length (filter (\<lambda>d. \<lparr>row = r + dy d, col = c + dx d\<rparr> \<in> set positions)
               [UpLeft, UpRight, DownLeft, DownRight])"

definition getFormationScore :: "pieceInfo list \<Rightarrow> rat" where
  "getFormationScore ps =
     (let positions = map fst ps in
      sum_list (map (\<lambda>info.
        let r = row (fst info); c = col (fst info);
            triangle = (if \<lparr>row = r + 1, col = c - 1\<rparr> \<in> set positions
                           \<and> \<lparr>row = r + 1, col = c + 1\<rparr> \<in> set positions then 15 else 0);
            chainLength = 1 + chainBelow positions (r + 1) (c + 1);
            chain = (if chainLength \<ge> 3 then of_nat chainLength * 8 else 0);
            phalanx = (if \<lparr>row = r, col = c + 2\<rparr> \<in> set positions
                          \<or> \<lparr>row = r, col = c - 2\<rparr> \<in> set positions then 5 else 0)
        in triangle + chain + phalanx + of_nat (countProtectors positions r c) * 6) ps))"

definition evaluateFormations :: "position \<Rightarrow> rat" where
  "evaluateFormations p =
     getFormationScore (whitePieces p) * (12 / 10) - getFormationScore (blackPieces p) * (12 / 10)"

subsection \<open>Threat heatmaps\<close>

function kingThreats :: "grid \<Rightarrow> direction \<Rightarrow> int \<Rightarrow> int \<Rightarrow> int \<Rightarrow> (square \<times> rat) list" where
  "kingThreats g d r c distance =
     (if isValidSquare r c \<and> distance \<le> 7
      then (\<lparr>row = r, col = c\<rparr>, of_int (max (5 - distance) 1))
             # (if cell g r c \<noteq> NONE then []
                else kingThreats g d (r + dy d) (c + dx d) (distance + 1))
      else [])"
  by pat_completeness auto
termination
  by (relation "measure (\<lambda>(g, d, r, c, distance). nat (8 - distance))") auto

definition getThreatenedSquares :: "position \<Rightarrow> pieceInfo \<Rightarrow> (square \<times> rat) list" where
  "getThreatenedSquares p info =
     concat (map (\<lambda>d.
        let r = row (fst info) + dy d; c = col (fst info) + dx d in
        if isKing (snd info) then kingThreats (pieces p) d r c 1
        else (if isValidSquare r c then [(\<lparr>row = r, col = c\<rparr>, 3)] else []))
       [UpLeft, UpRight, DownLeft, DownRight])"

text \<open>The heat of a square: the sum of the values of the threats that name it.\<close>

definition getThreatHeatmap :: "position \<Rightarrow> pieceInfo list \<Rightarrow> square \<Rightarrow> rat" where
  "getThreatHeatmap p enemyPieces s =
     sum_list (map snd (filter (\<lambda>t. validSq (fst t) \<and> fst t = s)
                           (concat (map (getThreatenedSquares p) enemyPieces))))"

definition evaluateHeatmaps :: "position \<Rightarrow> rat" where
  "evaluateHeatmaps p =
     (let whiteHeat = getThreatHeatmap p (whitePieces p);
          blackHeat = getThreatHeatmap p (blackPieces p)
      in - sum_list (map (\<lambda>info. if blackHeat (fst info) > 0 then blackHeat (fst info) * 3 else 0)
                       (whitePieces p))
         + sum_list (map (\<lambda>info. if whiteHeat (fst info) > 0 then whiteHeat (fst info) * 3 else 0)
                       (blackPieces p)))"

subsection \<open>Endgame terms\<close>

definition evaluateOpposition :: "position \<Rightarrow> rat" where
  "evaluateOpposition p =
     (if kingsOf (whitePieces p) = 1 \<and> kingsOf (blackPieces p) = 1 then
        (case (find (\<lambda>i. snd i = WHITE_KING) (whitePieces p),
               find (\<lambda>i. snd i = BLACK_KING) (blackPieces p)) of
           (Some whiteKing, Some blackKing) \<Rightarrow>
             (let rowDiff = \<bar>row (fst whiteKing) - row (fst blackKing)\<bar>;
                  colDiff = \<bar>col (fst whiteKing) - col (fst blackKing)\<bar>
              in if (rowDiff = 2 \<and> colDiff = 0) \<or> (rowDiff = 0 \<and> colDiff = 2)
                 then (if currentPlayer p = PLAYER_WHITE then 1 else - 1) else 0)
         | _ \<Rightarrow> 0)
      else 0)"

definition centerDistance :: "square \<Rightarrow> rat" where
  "centerDistance s = \<bar>of_int (row s) - 9 / 2\<bar> + \<bar>of_int (col s) - 9 / 2\<bar>"

definition evaluateEndgame :: "position \<Rightarrow> rat" where
  "evaluateEndgame p =
     (let white = whitePieces p; black = blackPieces p;
          totalPieces = length white + length black;
          kingPart =
            (if menOf white = 0 \<and> menOf black = 0 then
               (let kingDiff = int (kingsOf white) - int (kingsOf black) in
                of_int kingDiff * 200
                + (if \<bar>kingDiff\<bar> \<le> 1
                   then sum_list (map (\<lambda>i. if snd i = WHITE_KING then 15 - centerDistance (fst i)
                                            else 0) white)
                        - sum_list (map (\<lambda>i. if snd i = BLACK_KING then 15 - centerDistance (fst i)
                                              else 0) black)
                   else 0))
             else 0)
      in kingPart + (if totalPieces \<le> 6 then evaluateOpposition p * 50 else 0))"

subsection \<open>The evaluation\<close>

record phaseWeights =
  w_mobility :: rat
  w_tactics :: rat
  w_control :: rat
  w_formations :: rat
  w_threats :: rat
  w_endgame :: rat

definition getPhaseWeights :: "gamePhase \<Rightarrow> phaseWeights" where
  "getPhaseWeights phase =
     (case phase of
        Opening \<Rightarrow> \<lparr>w_mobility = 2, w_tactics = 1, w_control = 15 / 10, w_formations = 12 / 10,
                    w_threats = 8 / 10, w_endgame = 0\<rparr>
      | Middlegame \<Rightarrow> \<lparr>w_mobility = 15 / 10, w_tactics = 15 / 10, w_control = 12 / 10,
                       w_formations = 1, w_threats = 12 / 10, w_endgame = 0\<rparr>
      | Endgame \<Rightarrow> \<lparr>w_mobility = 8 / 10, w_tactics = 1, w_control = 8 / 10,
                    w_formations = 5 / 10, w_threats = 6 / 10, w_endgame = 2\<rparr>)"

text \<open>
  The body of \<^verbatim>\<open>evaluatePosition\<close> after the cache lookup: the score from the point of
  view of the side to move.
\<close>

definition evaluateUncached :: "(int \<Rightarrow> int \<Rightarrow> bool) \<Rightarrow> position \<Rightarrow> rat" where
  "evaluateUncached dark p =
     (let white = whitePieces p; black = blackPieces p in
      if length white = 0 then (if currentPlayer p = PLAYER_BLACK then 10000 else - 10000)
      else if length black = 0 then (if currentPlayer p = PLAYER_WHITE then 10000 else - 10000)
      else
        (let phase = getGamePhase p;
             whiteMaterial = of_nat (menOf white) * 100 + of_nat (kingsOf white) * 450;
             blackMaterial = of_nat (menOf black) * 100 + of_nat (kingsOf black) * 450;
             score0 = whiteMaterial - blackMaterial
                      + sum_list (map (\<lambda>i. evaluatePiecePositionFlipped i True phase) white)
                      - sum_list (map (\<lambda>i. evaluatePiecePositionFlipped i False phase) black);
             mobility = of_int (evaluateMobilityDifferential dark p);
             threats = evaluateTacticalThreats dark p;
             control = evaluateStrategicControl p phase;
             formations = evaluateFormations p;
             heatmapScore = evaluateHeatmaps p;
             endgameScore = (if phase = Endgame then evaluateEndgame p else 0);
             weights = getPhaseWeights phase;
             score1 = score0 + mobility * w_mobility weights + threats * w_tactics weights
                      + control * w_control weights + formations * w_formations weights
                      + heatmapScore * w_threats weights + endgameScore * w_endgame weights;
             score2 = score1 + (if currentPlayer p = PLAYER_WHITE then 10 else - 10)
         in if currentPlayer p = PLAYER_WHITE then score2 else - score2))"

text \<open>The engine's caches, and \<^verbatim>\<open>evaluatePosition\<close> with its memo table.\<close>

record caches =
  cache :: "poskey tt"
  evalCache :: "poskey \<rightharpoonup> rat"

definition evaluatePosition ::
  "(int \<Rightarrow> int \<Rightarrow> bool) \<Rightarrow> caches world \<Rightarrow> position \<Rightarrow> rat \<times> caches world" where
  "evaluatePosition dark w p =
     (let cacheKey = generateKey dark p in
      case evalCache (rest w) cacheKey of
        Some v \<Rightarrow> (v, w)
      | None \<Rightarrow>
          if length (whitePieces p) = 0 \<or> length (blackPieces p) = 0
          then (evaluateUncached dark p, w)
          else (evaluateUncached dark p,
                w\<lparr>rest := (rest w)\<lparr>evalCache := (evalCache (rest w))(cacheKey \<mapsto>
                                                       evaluateUncached dark p)\<rparr>\<rparr>))"

section \<open>The entry of negamax (ai.search.js)\<close>

text \<open>
  \<^verbatim>\<open>negamax\<close> up to the generation of the moves: the node counter, the recursion limit,
  the time check (\<^verbatim>\<open>Date.now()\<close> is read only on every 2048th node), the repetition
  test, the hand-over to the quiescence search, the transposition-table lookup, and the
  score of a position without moves. \<open>Returned\<close> is a \<^verbatim>\<open>return\<close> with its value;
  \<open>Searching\<close> stands for the rest of the function (null move, move loop, table store),
  entered with a non-empty move list. \<^verbatim>\<open>ai.maxRecursionDepth\<close> is 60.
\<close>

definition maxRecursionDepth :: nat where
  "maxRecursionDepth = 60"

definition QUIESCENCE_DEPTH :: "nat \<Rightarrow> int" where
  "QUIESCENCE_DEPTH l = (if l = 1 then 2 else if l = 2 then 3 else if l = 3 then 4
                         else if l = 4 then 5 else if l = 5 then 6 else if l = 6 then 8 else 4)"

datatype entryOutcome = Returned num "caches world" | Searching "move list" "caches world"

definition negamaxEntry ::
  "caches env \<Rightarrow> (int \<Rightarrow> int \<Rightarrow> bool) \<Rightarrow> caches world \<Rightarrow> position \<Rightarrow> int \<Rightarrow> num \<Rightarrow> num
     \<Rightarrow> rat \<Rightarrow> rat \<Rightarrow> nat \<Rightarrow> nat \<Rightarrow> entryOutcome" where
  "negamaxEntry e dark w p depth alpha beta startTime timeLimit recursionDepth ply =
     (let w1 = w\<lparr>nodeCount := nodeCount w + 1\<rparr> in
      if recursionDepth > maxRecursionDepth
      then Returned (Num (fst (evaluatePosition dark w1 p))) (snd (evaluatePosition dark w1 p))
      else if nodeCount w1 mod 2048 = 0 \<and> fst (dateNow e w1) - startTime > timeLimit
      then Returned (Num 0) ((snd (dateNow e w1))\<lparr>searchAborted := True\<rparr>)
      else
        (let w2 = (if nodeCount w1 mod 2048 = 0 then snd (dateNow e w1) else w1);
             key = generateKey dark p
         in if length (filter (\<lambda>k. k = key) (history p)) \<ge> 2 then Returned (Num (- 50)) w2
            else if depth \<le> 0
            then Returned
                   (fst (quiescenceResult e w2 p alpha beta (QUIESCENCE_DEPTH (level e))
                           startTime timeLimit recursionDepth))
                   (snd (quiescenceResult e w2 p alpha beta (QUIESCENCE_DEPTH (level e))
                           startTime timeLimit recursionDepth))
            else
              (let cached = fst (lookup (cache (rest w2)) key depth alpha beta);
                   w3 = w2\<lparr>rest := (rest w2)\<lparr>cache := snd (lookup (cache (rest w2)) key depth
                                                              alpha beta)\<rparr>\<rparr>
               in case cached of
                    Some (en, True) \<Rightarrow> Returned (e_value en) w3
                  | _ \<Rightarrow>
                      (let ms = generateMoves dark p in
                       if length ms = 0 then Returned (Num (- 10000 + of_nat ply)) w3
                       else Searching ms w3))))"

subsection \<open>Concrete positions\<close>

text \<open>
  Positions used to run the model. \<open>gridOf\<close> puts the listed pieces on an empty board;
  \<open>sq r c\<close> is the square in row \<open>r\<close>, column \<open>c\<close>.
\<close>

definition emptyGrid :: grid where
  "emptyGrid = replicate 10 (replicate 10 NONE)"

definition gridOf :: "(int \<times> int \<times> piece) list \<Rightarrow> grid" where
  "gridOf ps = foldl (\<lambda>g (r, c, v). setCell g r c v) emptyGrid ps"

definition sq :: "int \<Rightarrow> int \<Rightarrow> square" where
  "sq r c = \<lparr>row = r, col = c\<rparr>"

text \<open>
  A White king on (5,4) with Black men on (4,5), (3,8), (5,8) and (5,6): the king takes
  (4,5) landing on (2,7), takes (3,8) landing on (4,9), takes (5,8) landing on (6,7) and takes
  (5,6); the square (4,5) of its first victim is empty by then and is one of its landing
  squares.
\<close>

definition flyingKingPosition :: position where
  "flyingKingPosition =
     \<lparr>pieces = gridOf [(5,4,WHITE_KING), (4,5,BLACK), (3,8,BLACK), (5,8,BLACK), (5,6,BLACK)],
      currentPlayer = PLAYER_WHITE, history = []\<rparr>"

definition flyingKingMove :: move where
  "flyingKingMove = \<lparr>from = sq 5 4, to = sq 4 5, captures = [sq 4 5, sq 3 8, sq 5 8, sq 5 6]\<rparr>"

text \<open>A White man on (2,3) takes the Black man on (1,2) and lands on row 0.\<close>

definition promotionPosition :: position where
  "promotionPosition =
     \<lparr>pieces = gridOf [(2,3,WHITE), (1,2,BLACK)], currentPlayer = PLAYER_WHITE, history = []\<rparr>"

definition promotionMove :: move where
  "promotionMove = \<lparr>from = sq 2 3, to = sq 0 1, captures = [sq 1 2]\<rparr>"

text \<open>
  A history table in which the move (3,2) to (4,3) has passed the ageing threshold, and a
  second entry.
\<close>

definition agedMove :: move where
  "agedMove = \<lparr>from = sq 3 2, to = sq 4 3, captures = []\<rparr>"

definition agedTable :: "movekey \<rightharpoonup> int" where
  "agedTable = [(3, 2, 4, 3) \<mapsto> 10001, (6, 1, 5, 2) \<mapsto> 600]"

text \<open>
  White men on (6,3) and (9,0), Black men on the four squares diagonally around (4,3): the
  man on (6,3) can take (5,4), (3,4), (3,2) and (5,2) in a circle, in either direction, and
  the last jump would bring it back to (6,3).
\<close>

definition circlePosition :: position where
  "circlePosition =
     \<lparr>pieces = gridOf [(6,3,WHITE), (5,2,BLACK), (5,4,BLACK), (3,2,BLACK), (3,4,BLACK),
                       (9,0,WHITE)],
      currentPlayer = PLAYER_WHITE, history = []\<rparr>"

text \<open>
  A table holding one entry of depth 3 and one lower bound of depth 7, under keys 1 and 2.
\<close>

definition shallowTable :: "nat tt" where
  "shallowTable =
     \<lparr>table = [(1, \<lparr>e_depth = 3, e_value = Num 40, e_type = EXACT, e_bestMove = Some promotionMove,
                     e_accessTime = 0, e_age = 0\<rparr>),
                (2, \<lparr>e_depth = 7, e_value = Num 3, e_type = LOWER_BOUND, e_bestMove = None,
                     e_accessTime = 1, e_age = 0\<rparr>)],
      accessCount = 2, hits = 0, stores = 2\<rparr>"

text \<open>
  An even trade: the White man on (6,3) takes the Black man on (5,2) and lands on (4,1),
  where the Black man on (3,0) takes it back, landing on (5,2); no piece can take further.
\<close>

definition evenTradePosition :: position where
  "evenTradePosition =
     \<lparr>pieces = gridOf [(6,3,WHITE), (5,2,BLACK), (3,0,BLACK)],
      currentPlayer = PLAYER_WHITE, history = []\<rparr>"

definition evenTradeMove :: move where
  "evenTradeMove = \<lparr>from = sq 6 3, to = sq 4 1, captures = [sq 5 2]\<rparr>"

definition evenTradeRecapture :: move where
  "evenTradeRecapture = \<lparr>from = sq 3 0, to = sq 5 2, captures = [sq 4 1]\<rparr>"

text \<open>A store whose address 0 holds the grid of \<open>promotionPosition\<close>, and the position object.\<close>

definition sharedStore :: store where
  "sharedStore = \<lparr>grids = (\<lambda>a. if a = 0 then pieces promotionPosition else emptyGrid), nextFree = 1\<rparr>"

definition sharedPosition :: positionObj where
  "sharedPosition = \<lparr>piecesRef = 0, playerToMove = PLAYER_WHITE, historyOf = []\<rparr>"

text \<open>
  A position with two quiet moves and no capture for White, and surroundings for the driver:
  an engine state, and parameters in which every number is 0; in \<open>bookEnv\<close> an opening book
  is installed that answers with the move (3,2) to (4,3) whatever the position, in
  \<open>lateEnv\<close> there is no book and the clock shows a late time from its second reading on.
\<close>

definition twoMovesPosition :: position where
  "twoMovesPosition =
     \<lparr>pieces = gridOf [(6,3,WHITE), (1,2,BLACK)], currentPlayer = PLAYER_WHITE, history = []\<rparr>"

definition oddDark :: "int \<Rightarrow> int \<Rightarrow> bool" where
  "oddDark r c = ((r + c) mod 2 = 1)"

definition startWorld :: "unit world" where
  "startWorld = \<lparr>ticks = 0, nodeCount = 7, searchAborted = True, positionHistory = [],
                  killerMoves = [], rest = ()\<rparr>"

definition bookEnv :: "unit env" where
  "bookEnv =
     \<lparr>clock = (\<lambda>n. 0), level = 3, openingBook = Some (\<lambda>p h. Some agedMove),
      evaluateCaptureSequence = (\<lambda>p m. 0), rootOrderScore = (\<lambda>w p i m. 0),
      rootOrderEffect = (\<lambda>w p. w), negamaxResult = (\<lambda>w p d a b s t r ply. (Num 0, w)),
      fallbackChoice = (\<lambda>w p ms. 0),
      quiescenceResult = (\<lambda>w p a b d s t r. (Num 0, w))\<rparr>"

definition lateEnv :: "unit env" where
  "lateEnv =
     \<lparr>clock = (\<lambda>n. if n = 0 then 0 else 1000000), level = 3, openingBook = None,
      evaluateCaptureSequence = (\<lambda>p m. 0), rootOrderScore = (\<lambda>w p i m. 0),
      rootOrderEffect = (\<lambda>w p. w), negamaxResult = (\<lambda>w p d a b s t r ply. (Num 0, w)),
      fallbackChoice = (\<lambda>w p ms. 0),
      quiescenceResult = (\<lambda>w p a b d s t r. (Num 0, w))\<rparr>"

text \<open>
  Twenty Black kings on the four rows 0 to 3 and one White man on (9,0), White to move: both
  sides have pieces and White has the move (9,0) to (8,1).
\<close>

definition heavyPosition :: position where
  "heavyPosition =
     \<lparr>pieces = gridOf ([(0, c, BLACK_KING). c \<leftarrow> [1, 3, 5, 7, 9]]
                       @ [(1, c, BLACK_KING). c \<leftarrow> [0, 2, 4, 6, 8]]
                       @ [(2, c, BLACK_KING). c \<leftarrow> [1, 3, 5, 7, 9]]
                       @ [(3, c, BLACK_KING). c \<leftarrow> [0, 2, 4, 6, 8]]
                       @ [(9, 0, WHITE)]),
      currentPlayer = PLAYER_WHITE, history = []\<rparr>"

text \<open>
  A White man on (5,0) behind Black men on (4,1) and (3,2), White to move: the man cannot
  step and cannot jump, so White has no legal move.
\<close>

definition blockedPosition :: position where
  "blockedPosition =
     \<lparr>pieces = gridOf [(5,0,WHITE), (4,1,BLACK), (3,2,BLACK)],
      currentPlayer = PLAYER_WHITE, history = []\<rparr>"

text \<open>An engine with empty caches, and parameters in which every number is 0.\<close>

definition freshWorld :: "caches world" where
  "freshWorld = \<lparr>ticks = 0, nodeCount = 0, searchAborted = False, positionHistory = [],
                  killerMoves = [], rest = \<lparr>cache = emptyTT, evalCache = Map.empty\<rparr>\<rparr>"

definition quietEnv :: "caches env" where
  "quietEnv =
     \<lparr>clock = (\<lambda>n. 0), level = 3, openingBook = None,
      evaluateCaptureSequence = (\<lambda>p m. 0), rootOrderScore = (\<lambda>w p i m. 0),
      rootOrderEffect = (\<lambda>w p. w), negamaxResult = (\<lambda>w p d a b s t r ply. (Num 0, w)),
      fallbackChoice = (\<lambda>w p ms. 0),
      quiescenceResult = (\<lambda>w p a b d s t r. (Num 0, w))\<rparr>"

section \<open>Proof setup\<close>

text \<open>
  The defining equations of the recursive functions are unfolded by hand (or by the code
  equations, when a concrete position is evaluated), not by the simplifier.
\<close>

declare findEnemy.simps [simp del] landingSquares.simps [simp del] slideMoves.simps [simp del]
  findCaptureSequences.simps [simp del] findCaptureSequencesTraced.simps [simp del]
  longRangeAttackerInDir.simps [simp del] longRangeDefenderInDir.simps [simp del]
  iterativeDeepening.simps [simp del]

section \<open>Properties of the board operations\<close>

lemma validSq_bounds:
  "validSq s \<Longrightarrow> nat (row s) < 10 \<and> nat (col s) < 10 \<and> 0 \<le> row s \<and> 0 \<le> col s"
  by (auto simp: validSq_def isValidSquare_def BOARD_SIZE_def)

lemma wf_grid_row: "wf_grid g \<Longrightarrow> i < 10 \<Longrightarrow> length (g ! i) = 10"
  by (auto simp: wf_grid_def list_all_length)

lemma wf_setPiece: "wf_grid g \<Longrightarrow> wf_grid (setPiece g s v)"
proof (cases "nat (row s) < length g")
  case True
  assume "wf_grid g"
  with True show ?thesis
    by (auto simp: wf_grid_def setPiece_def setCell_def list_all_length nth_list_update)
next
  case False
  assume "wf_grid g"
  with False show ?thesis
    by (simp add: wf_grid_def setPiece_def setCell_def list_update_beyond)
qed

lemma square_eq_iff: "(s = t) = (row s = row t \<and> col s = col t)" for s t :: square
  by auto

lemma pieceAt_setPiece:
  "wf_grid g \<Longrightarrow> validSq s \<Longrightarrow> validSq t \<Longrightarrow>
   pieceAt (setPiece g s v) t = (if s = t then v else pieceAt g t)"
  by (auto simp: pieceAt_def setPiece_def setCell_def cell_def nth_list_update wf_grid_row
      square_eq_iff dest!: validSq_bounds simp: wf_grid_def)

lemma wf_clear: "wf_grid g \<Longrightarrow> wf_grid (foldl (\<lambda>g cap. setPiece g cap NONE) g caps)"
  by (induction caps arbitrary: g) (auto simp: wf_setPiece)

lemma pieceAt_clear:
  "wf_grid g \<Longrightarrow> \<forall>c\<in>set caps. validSq c \<Longrightarrow> validSq t \<Longrightarrow>
   pieceAt (foldl (\<lambda>g cap. setPiece g cap NONE) g caps) t =
     (if t \<in> set caps then NONE else pieceAt g t)"
proof (induction caps arbitrary: g)
  case Nil
  then show ?case by simp
next
  case (Cons c caps)
  then show ?case by (auto simp: wf_setPiece pieceAt_setPiece)
qed

subsection \<open>Move application\<close>

text \<open>
  \<open>makeMove\<close> away from the defect of claim C2. On a 10 x 10 grid, for a move whose squares
  are on the board and whose destination is not one of its captured squares, the result has
  the side to move toggled and the history kept; the destination holds the moved piece, as a
  king if that piece is a White man arriving on row 0 or a Black man arriving on row 9; the
  source square, when it differs from the destination, is empty; every captured square is
  empty; every other square is as before.
\<close>

lemma makeMove_off_captures:
  assumes "wf_grid (pieces p)" and "validSq (from m)" and "validSq (to m)"
    and "\<forall>c\<in>set (captures m). validSq c" and "to m \<notin> set (captures m)"
  shows "currentPlayer (makeMove p m) = otherPlayer (currentPlayer p)
     \<and> history (makeMove p m) = history p
     \<and> wf_grid (pieces (makeMove p m))
     \<and> pieceAt (pieces (makeMove p m)) (to m) =
         (if pieceAt (pieces p) (from m) = WHITE \<and> row (to m) = 0 then WHITE_KING
          else if pieceAt (pieces p) (from m) = BLACK \<and> row (to m) = 9 then BLACK_KING
          else pieceAt (pieces p) (from m))
     \<and> (from m \<noteq> to m \<longrightarrow> pieceAt (pieces (makeMove p m)) (from m) = NONE)
     \<and> (\<forall>c\<in>set (captures m). pieceAt (pieces (makeMove p m)) c = NONE)
     \<and> (\<forall>s. validSq s \<and> s \<noteq> from m \<and> s \<noteq> to m \<and> s \<notin> set (captures m)
            \<longrightarrow> pieceAt (pieces (makeMove p m)) s = pieceAt (pieces p) s)"
  using assms
  by (auto simp: makeMove_def Let_def otherPlayer_def shouldPromote_def BOARD_SIZE_def
      wf_setPiece wf_clear pieceAt_setPiece pieceAt_clear)

text \<open>
  The capture of \<open>promotionPosition\<close>, a move the generator returns: the White
  man arrives on row 0 as a king, its source and the captured square are empty, Black is to
  move.
\<close>

lemma makeMove_promotionMove:
  "wf_grid (pieces promotionPosition) \<and> validSq (from promotionMove) \<and> validSq (to promotionMove)
   \<and> list_all validSq (captures promotionMove)
   \<and> to promotionMove \<notin> set (captures promotionMove)
   \<and> promotionMove \<in> set (getAvailableCaptures promotionPosition)
   \<and> currentPlayer (makeMove promotionPosition promotionMove) = PLAYER_BLACK
   \<and> pieceAt (pieces (makeMove promotionPosition promotionMove)) (sq 0 1) = WHITE_KING
   \<and> pieceAt (pieces (makeMove promotionPosition promotionMove)) (sq 2 3) = NONE
   \<and> pieceAt (pieces (makeMove promotionPosition promotionMove)) (sq 1 2) = NONE"
proof -
  have h1: "wf_grid (pieces promotionPosition)" by code_simp
  have h2: "validSq (from promotionMove)" by code_simp
  have h3: "validSq (to promotionMove)" by code_simp
  have h4: "\<forall>c\<in>set (captures promotionMove). validSq c" by code_simp
  have h5: "to promotionMove \<notin> set (captures promotionMove)" by code_simp
  have h6: "promotionMove \<in> set (getAvailableCaptures promotionPosition)" by code_simp
  have e1: "pieceAt (pieces promotionPosition) (sq 2 3) = WHITE" by code_simp
  have e2: "currentPlayer promotionPosition = PLAYER_WHITE" by code_simp
  have e3: "to promotionMove = sq 0 1" "from promotionMove = sq 2 3"
    "captures promotionMove = [sq 1 2]"
    by (simp_all add: promotionMove_def)
  have e4: "row (sq 0 1) = 0" "sq 2 3 \<noteq> sq 0 1" by (simp_all add: sq_def)
  have h4': "list_all validSq (captures promotionMove)"
    using h4 by (simp add: list_all_iff)
  from makeMove_off_captures [OF h1 h2 h3 h4 h5] h1 h2 h3 h4' h5 h6
  show ?thesis
    by (simp add: e1 e2 e3 e4 otherPlayer_def)
qed

text \<open>
  Claim C2. The claim expects the moved piece on the destination square after \<open>makeMove\<close>.
  \<open>makeMove\<close> puts the piece on the destination first and empties the squares of
  \<open>captures\<close> afterwards. For \<open>flyingKingPosition\<close> the generator returns \<open>flyingKingMove\<close>, in
  which the king comes to rest on (4,5), the square of the first man it took: the squares
  of the move are on the board, the king stands on the source, and after \<open>makeMove\<close> the
  destination is empty and White has no piece left on the board.
\<close>

theorem makeMove_erases_capturing_king:
  "wf_grid (pieces flyingKingPosition)
   \<and> flyingKingMove \<in> set (getAvailableCaptures flyingKingPosition)
   \<and> flyingKingMove \<in> set (generateMoves oddDark flyingKingPosition)
   \<and> validSq (from flyingKingMove) \<and> validSq (to flyingKingMove)
   \<and> list_all validSq (captures flyingKingMove)
   \<and> to flyingKingMove \<in> set (captures flyingKingMove)
   \<and> pieceAt (pieces flyingKingPosition) (from flyingKingMove) = WHITE_KING
   \<and> length (whitePieces flyingKingPosition) = 1
   \<and> pieceAt (pieces (makeMove flyingKingPosition flyingKingMove)) (to flyingKingMove) = NONE
   \<and> length (whitePieces (makeMove flyingKingPosition flyingKingMove)) = 0"
  by code_simp

section \<open>Properties of the history table and of the mobility term\<close>

lemma updateHistory_own_entry:
  "updateHistory m depth t (getMoveKey m) =
     Some ((case t (getMoveKey m) of None \<Rightarrow> 0 | Some v \<Rightarrow> v) + depth * depth)"
  by (simp add: updateHistory_def Let_def)

text \<open>
  Claim C8. The claim expects the updated move's score to be its halved prior value plus the
  increment once the table is aged. \<open>updateHistory\<close> reads the prior value before the
  halving and writes that value plus the increment: in \<open>agedTable\<close> the move has score 10001,
  and after an update at depth 2 it has 10005, not 10001 div 2 + 4 = 5004, while the other
  entry is halved from 600 to 300.
\<close>

theorem updateHistory_keeps_unhalved_score:
  "agedTable (getMoveKey agedMove) = Some 10001
   \<and> updateHistory agedMove 2 agedTable (getMoveKey agedMove) = Some 10005
   \<and> updateHistory agedMove 2 agedTable (6, 1, 5, 2) = Some 300
   \<and> (10001::int) div 2 + 2 * 2 = 5004"
  by (simp add: updateHistory_def getMoveKey_def agedMove_def agedTable_def sq_def Let_def)

text \<open>
  The mobility term on \<open>blockedPosition\<close>: White has no move and Black has two. With White to
  move the term is (0 - 2) * 5 + 30 = 20; with Black to move all three bonuses apply and it
  is (2 - 0) * 5 + 30 + 70 + 200 = 310.
\<close>

lemma evaluateMobilityDifferential_blocked:
  "evaluateMobilityDifferential oddDark blockedPosition = 20
   \<and> evaluateMobilityDifferential oddDark (blockedPosition\<lparr>currentPlayer := PLAYER_BLACK\<rparr>) = 310"
  by code_simp

text \<open>
  Claim C9. The mobility term is five times the difference between the move count of the
  side to move and the move count of the other side, plus 30 when the other side has at most
  3 moves, plus 70 when it has at most 1 move, plus 200 when it has none (the bonuses add up,
  300 in all for a side without moves).
\<close>

theorem evaluateMobilityDifferential_formula:
  "evaluateMobilityDifferential dark p =
     (let our = int (length (generateMoves dark p));
          their = int (length (generateMoves dark
                    \<lparr>pieces = pieces p, currentPlayer = otherPlayer (currentPlayer p),
                     history = []\<rparr>))
      in (our - their) * 5 + (if their \<le> 3 then 30 else 0) + (if their \<le> 1 then 70 else 0)
           + (if their = 0 then 200 else 0))"
  by (simp add: evaluateMobilityDifferential_def Let_def otherPlayer_def)

section \<open>Properties of the transposition table\<close>


lemma map_of_key_filter:
  "map_of (filter (\<lambda>ke. Q (fst ke)) xs) k = (if Q k then map_of xs k else None)"
  by (induction xs) auto

lemma map_of_aged:
  "map_of (map (\<lambda>ke. (fst ke, f (snd ke))) xs) k = map_option f (map_of xs k)"
  by (induction xs) auto

lemma cleanup_keeps_depth:
  "map_of (table (cleanup t)) k = Some e' \<Longrightarrow>
   \<exists>e. map_of (table t) k = Some e \<and> e_depth e' = e_depth e"
proof -
  assume a: "map_of (table (cleanup t)) k = Some e'"
  define aged where "aged = map (\<lambda>ke. (fst ke, (snd ke)\<lparr>e_age := e_age (snd ke) + 1\<rparr>)) (table t)"
  define doomed where
    "doomed = map fst (take ((3 * length aged) div 10) (sort_key (\<lambda>ke. entryScore (snd ke)) aged))"
  have "table (cleanup t) = filter (\<lambda>ke. fst ke \<notin> set doomed) aged"
    by (simp add: cleanup_def Let_def aged_def doomed_def)
  with a map_of_key_filter [of "\<lambda>k. k \<notin> set doomed" aged k]
  have "map_of aged k = Some e'" by (simp split: if_splits)
  with map_of_aged [of "\<lambda>e. e\<lparr>e_age := e_age e + 1\<rparr>" "table t" k]
  show ?thesis
    unfolding aged_def by auto
qed

lemma store_then_found:
  assumes "\<forall>e. map_of (table t) key = Some e \<longrightarrow> e_depth e \<le> d"
  shows "\<exists>n. map_of (table (store maxSize t key d v EXACT best)) key =
     Some \<lparr>e_depth = d, e_value = v, e_type = EXACT, e_bestMove = best, e_accessTime = n, e_age = 0\<rparr>"
proof -
  define t1 where "t1 = (if length (table t) \<ge> maxSize then cleanup t else t)"
  have "\<forall>e. map_of (table t1) key = Some e \<longrightarrow> e_depth e \<le> d"
    using assms cleanup_keeps_depth [of t key] by (auto simp: t1_def)
  then have "(case map_of (table t1) key of None \<Rightarrow> True
             | Some ex \<Rightarrow> e_depth ex < d \<or> (e_depth ex = d \<and> EXACT = EXACT))"
    by (auto split: option.splits)
  then show ?thesis
    unfolding store_def Let_def t1_def [symmetric]
    by (simp add: update_conv')
qed

text \<open>
  Claim C3, amended. \<open>lookup\<close> returns nothing exactly when the key has no entry or the
  stored depth is below the requested depth. An entry of sufficient depth is always returned
  (with its access time refreshed and its age reset), flagged usable exactly when it is
  exact, or a lower bound with value at least \<open>beta\<close>, or an upper bound with value at most
  \<open>alpha\<close>, and flagged not useful otherwise. If the table holds no entry of depth above 5
  for the key, then after \<open>store\<close> with depth 5, value \<open>v\<close>, type exact and move \<open>best\<close>, a
  lookup with depth 5 and the full window returns a usable entry with value \<open>v\<close> and best
  move \<open>best\<close>, and a lookup with depth 6 returns nothing.
\<close>

theorem lookup_contract:
  "(fst (lookup t key minDepth alpha beta) = None
      \<longleftrightarrow> (\<forall>e. map_of (table t) key = Some e \<longrightarrow> e_depth e < minDepth))
   \<and> (\<forall>e. map_of (table t) key = Some e \<and> minDepth \<le> e_depth e \<longrightarrow>
        fst (lookup t key minDepth alpha beta) =
          Some (e\<lparr>e_accessTime := accessCount t, e_age := 0\<rparr>,
                e_type e = EXACT \<or> (e_type e = LOWER_BOUND \<and> beta \<le> e_value e)
                  \<or> (e_type e = UPPER_BOUND \<and> e_value e \<le> alpha)))
   \<and> ((\<forall>e. map_of (table t) key = Some e \<longrightarrow> e_depth e \<le> 5) \<longrightarrow>
        (\<exists>e. fst (lookup (store maxSize t key 5 v EXACT best) key 5 NegInfinity Infinity) = Some (e, True)
              \<and> e_value e = v \<and> e_bestMove e = best \<and> e_depth e = 5 \<and> e_type e = EXACT)
        \<and> fst (lookup (store maxSize t key 5 v EXACT best) key 6 alpha beta) = None)"
proof (intro conjI allI impI)
  show "(fst (lookup t key minDepth alpha beta) = None)
      = (\<forall>e. map_of (table t) key = Some e \<longrightarrow> e_depth e < minDepth)"
    by (auto simp: lookup_def Let_def split: option.splits)
next
  fix e
  assume "map_of (table t) key = Some e \<and> minDepth \<le> e_depth e"
  then show "fst (lookup t key minDepth alpha beta) =
          Some (e\<lparr>e_accessTime := accessCount t, e_age := 0\<rparr>,
                e_type e = EXACT \<or> (e_type e = LOWER_BOUND \<and> beta \<le> e_value e)
                  \<or> (e_type e = UPPER_BOUND \<and> e_value e \<le> alpha))"
    by (cases "e_type e") (auto simp: lookup_def Let_def)
next
  assume a: "\<forall>e. map_of (table t) key = Some e \<longrightarrow> e_depth e \<le> 5"
  from store_then_found [OF a] obtain n where
    n: "map_of (table (store maxSize t key 5 v EXACT best)) key =
     Some \<lparr>e_depth = 5, e_value = v, e_type = EXACT, e_bestMove = best, e_accessTime = n, e_age = 0\<rparr>"
    by blast
  show "\<exists>e. fst (lookup (store maxSize t key 5 v EXACT best) key 5 NegInfinity Infinity) = Some (e, True)
              \<and> e_value e = v \<and> e_bestMove e = best \<and> e_depth e = 5 \<and> e_type e = EXACT"
    by (simp add: lookup_def n Let_def)
  show "fst (lookup (store maxSize t key 5 v EXACT best) key 6 alpha beta) = None"
    by (simp add: lookup_def n)
qed

text \<open>
  The theorem on \<open>shallowTable\<close>: the lower bound of depth 7 under key 2 is returned
  flagged not useful for the full window; storing depth 5 under key 1, over the entry of
  depth 3, gives the usable entry at depth 5 and nothing at depth 6.
\<close>

theorem lookup_contract_witness:
  "map_of (table shallowTable) 2 = Some \<lparr>e_depth = 7, e_value = Num 3, e_type = LOWER_BOUND, e_bestMove = None,
                     e_accessTime = 1, e_age = 0\<rparr>
   \<and> fst (lookup shallowTable 2 5 NegInfinity Infinity) =
       Some (\<lparr>e_depth = 7, e_value = Num 3, e_type = LOWER_BOUND, e_bestMove = None,
                     e_accessTime = 2, e_age = 0\<rparr>, False)
   \<and> map_option e_depth (map_of (table shallowTable) 1) = Some 3
   \<and> (\<exists>e. fst (lookup (store 2000000 shallowTable 1 5 (Num 12) EXACT (Some flyingKingMove)) 1 5 NegInfinity Infinity) = Some (e, True)
         \<and> e_value e = Num 12 \<and> e_bestMove e = Some flyingKingMove)
   \<and> fst (lookup (store 2000000 shallowTable 1 5 (Num 12) EXACT (Some flyingKingMove)) 1 6 NegInfinity Infinity) = None"
proof -
  have h1: "map_of (table shallowTable) 2 = Some \<lparr>e_depth = 7, e_value = Num 3, e_type = LOWER_BOUND, e_bestMove = None,
                     e_accessTime = 1, e_age = 0\<rparr>"
    by (simp add: shallowTable_def)
  have h2: "\<forall>e. map_of (table shallowTable) 1 = Some e \<longrightarrow> e_depth e \<le> 5"
    by (simp add: shallowTable_def)
  have a: "accessCount shallowTable = 2" by (simp add: shallowTable_def)
  have h3: "map_option e_depth (map_of (table shallowTable) 1) = Some 3"
    by (simp add: shallowTable_def)
  from lookup_contract [of shallowTable 2 5 NegInfinity Infinity 2000000 "Num 12" "Some flyingKingMove"]
    lookup_contract [of shallowTable 1 5 NegInfinity Infinity 2000000 "Num 12" "Some flyingKingMove"]
    h1 h2 h3 a
  show ?thesis by auto
qed

text \<open>
  The claim as stated fails for an entry that is too shallow: key 1 of \<open>shallowTable\<close> has
  an entry of depth 3, and a lookup with depth 5 returns nothing, not the entry flagged as
  not useful.
\<close>

theorem lookup_shallow_entry_counterexample:
  "map_of (table shallowTable) 1 = Some \<lparr>e_depth = 3, e_value = Num 40, e_type = EXACT, e_bestMove = Some promotionMove,
                     e_accessTime = 0, e_age = 0\<rparr>
   \<and> fst (lookup shallowTable 1 5 NegInfinity Infinity) = None"
  by (simp add: shallowTable_def lookup_def)

section \<open>Properties of the move generator\<close>

lemma slideMoves_quiet: "list_all (\<lambda>m. captures m = []) (slideMoves dark g src d r c)"
  by (induction dark g src d r c rule: slideMoves.induct) (subst slideMoves.simps, simp)

lemma addNormalMovesForPiece_quiet:
  "m \<in> set (addNormalMovesForPiece dark p r c) \<Longrightarrow> captures m = []"
  using slideMoves_quiet [unfolded list_all_iff]
  by (auto simp: addNormalMovesForPiece_def Let_def split: if_splits)

lemma normalMoves_quiet: "list_all (\<lambda>m. captures m = []) (normalMoves dark p)"
  by (auto simp: normalMoves_def list_all_iff dest: addNormalMovesForPiece_quiet split: if_splits)

lemma generateMoves_quiet:
  "getAvailableCaptures p = [] \<Longrightarrow> list_all (\<lambda>m. captures m = []) (generateMoves dark p)"
  by (simp add: generateMoves_def normalMoves_quiet)

text \<open>
  Claim C1. In \<open>circlePosition\<close> the White man on (6,3) has a capture: a Black man on (5,4)
  with the empty square (4,5) behind it (and likewise over (5,2)). Every chain from (6,3)
  leads around the circle to a last jump back onto (6,3); that call returns at once because
  the square was visited, the call before it has set \<^verbatim>\<open>foundJump\<close> and records nothing, and
  so no sequence at all is recorded. \<open>getAvailableCaptures\<close> is empty and \<open>generateMoves\<close>
  returns the quiet move of the other man (with squares of odd coordinate sum as the dark
  ones) where the claim requires capturing moves only.
\<close>

theorem generateMoves_misses_circular_capture:
  "pieceAt (pieces circlePosition) (sq 6 3) = WHITE
   \<and> pieceAt (pieces circlePosition) (sq 5 4) = BLACK
   \<and> pieceAt (pieces circlePosition) (sq 4 5) = NONE
   \<and> jumpsFrom (pieces circlePosition) (sq 6 3) [] PLAYER_WHITE
        = [(sq 5 2, sq 4 1), (sq 5 4, sq 4 5)]
   \<and> getAvailableCaptures circlePosition = []
   \<and> generateMoves (\<lambda>r c. (r + c) mod 2 = 1) circlePosition
        = [\<lparr>from = sq 9 0, to = sq 8 1, captures = []\<rparr>]"
  by code_simp

text \<open>Whatever the colouring of the board, no move returned for \<open>circlePosition\<close> captures.\<close>

lemma generateMoves_circlePosition_quiet:
  "list_all (\<lambda>m. captures m = []) (generateMoves dark circlePosition)"
proof -
  have "getAvailableCaptures circlePosition = []" by code_simp
  then show ?thesis by (rule generateMoves_quiet)
qed

lemma alreadyCaptured_iff: "alreadyCaptured cap s = (s \<in> set cap)"
proof -
  have "\<And>p. (row p = row s \<and> col p = col s) = (p = s)"
    using square_eq_iff [of _ s] by simp
  then show ?thesis
    by (simp add: alreadyCaptured_def list_ex_iff)
qed

lemma jumpsFrom_fresh: "j \<in> set (jumpsFrom g pos cap pl) \<Longrightarrow> fst j \<notin> set cap"
  by (auto simp: jumpsFrom_def kingJumps_def manJumps_def Let_def alreadyCaptured_iff
      split: if_splits option.splits)

lemma traced_invariant:
  "(tr, m) \<in> set (findCaptureSequencesTraced g pos path cap vis pl d) \<Longrightarrow>
   distinct path \<Longrightarrow> set path \<subseteq> set vis \<Longrightarrow> distinct cap \<Longrightarrow> length path = length cap \<Longrightarrow>
   distinct tr \<and> distinct (captures m) \<and> hd tr = from m \<and> last tr = to m
   \<and> length tr = Suc (length (captures m)) \<and> take (Suc (length path)) tr = path @ [pos]"
proof (induction g pos path cap vis pl d arbitrary: tr m rule: findCaptureSequencesTraced.induct)
  case (1 g pos path cap vis pl d)
  note mem = "1.prems"(1)
  have nd: "\<not> d > 20" and nv: "pos \<notin> set vis"
    using mem by (subst (asm) findCaptureSequencesTraced.simps, simp split: if_splits)+
  define jumps where "jumps = jumpsFrom g pos cap pl"
  from mem nd nv consider
    (rec) j where "j \<in> set jumps"
      "(tr, m) \<in> set (findCaptureSequencesTraced (applyJump g pos (fst j) (snd j)) (snd j)
           (path @ [pos]) (cap @ [fst j]) (vis @ [pos]) pl (d + 1))"
    | (here) "jumps = []" "cap \<noteq> []" "tr = path @ [pos]"
        "m = \<lparr>from = (case path of [] \<Rightarrow> pos | p0 # _ \<Rightarrow> p0), to = pos, captures = cap\<rparr>"
    by (subst (asm) findCaptureSequencesTraced.simps)
       (auto simp: Let_def jumps_def split: if_splits)
  then show ?case
  proof cases
    case rec
    have fresh: "fst j \<notin> set cap"
      using rec(1) jumpsFrom_fresh unfolding jumps_def by blast
    have pos_new: "pos \<notin> set path" using nv "1.prems"(3) by blast
    have "distinct tr \<and> distinct (captures m) \<and> hd tr = from m \<and> last tr = to m
       \<and> length tr = Suc (length (captures m))
       \<and> take (Suc (length (path @ [pos]))) tr = (path @ [pos]) @ [snd j]"
      using "1.IH" [OF nd nv jumps_def rec(1) rec(2)] "1.prems"(2-5) fresh pos_new
      by auto
    moreover from this have "take (Suc (length path)) tr = path @ [pos]"
      by (metis append_eq_conv_conj length_append_singleton take_take min.absorb1 le_add2
          plus_1_eq_Suc le_Suc_eq append.assoc)
    ultimately show ?thesis by blast
  next
    case here
    then show ?thesis
      using "1.prems"(2-5) nv by (cases path) auto
  qed
qed


lemma traced_erasure:
  "map snd (findCaptureSequencesTraced g pos path cap vis pl d)
     = findCaptureSequences g pos path cap vis pl d"
proof (induction g pos path cap vis pl d rule: findCaptureSequencesTraced.induct)
  case (1 g pos path cap vis pl d)
  show ?case
  proof (cases "d > 20 \<or> pos \<in> set vis")
    case True
    then show ?thesis
      by (subst findCaptureSequencesTraced.simps, subst findCaptureSequences.simps) auto
  next
    case False
    then have nd: "\<not> d > 20" and nv: "pos \<notin> set vis" by auto
    have ih: "\<And>j. j \<in> set (jumpsFrom g pos cap pl) \<Longrightarrow>
        map snd (findCaptureSequencesTraced (applyJump g pos (fst j) (snd j)) (snd j)
               (path @ [pos]) (cap @ [fst j]) (vis @ [pos]) pl (Suc d))
        = findCaptureSequences (applyJump g pos (fst j) (snd j)) (snd j)
               (path @ [pos]) (cap @ [fst j]) (vis @ [pos]) pl (Suc d)"
      using "1.IH" [OF nd nv refl] by simp
    show ?thesis
      using nd nv
      by (subst findCaptureSequencesTraced.simps, subst findCaptureSequences.simps)
         (simp add: Let_def map_concat comp_def ih cong: map_cong)
  qed
qed

lemma getAvailableCaptures_subset: "set (getAvailableCaptures p) \<subseteq> set (allCaptures p)"
  by (auto simp: getAvailableCaptures_def Let_def)

text \<open>
  Claim C10. Every capture move that \<open>getAvailableCaptures\<close> returns was recorded by the
  search started on its source square together with the list of squares the capturing piece
  stood on, from the source to the destination; these squares are pairwise distinct, so the
  piece never comes back to a square it stood on earlier in the chain (its starting square
  included), and the captured squares are pairwise distinct as well. The list has one square
  more than the move has captures.
\<close>

theorem capture_sequences_visit_distinct_squares:
  assumes "m \<in> set (getAvailableCaptures p)"
  shows "\<exists>tr. (tr, m) \<in> set (findCaptureSequencesTraced (pieces p) (from m) [] [] []
                                (currentPlayer p) 0)
            \<and> distinct tr \<and> distinct (captures m) \<and> hd tr = from m \<and> last tr = to m
            \<and> length tr = Suc (length (captures m))"
proof -
  from assms have "m \<in> set (allCaptures p)"
    using getAvailableCaptures_subset by blast
  then obtain s where "m \<in> set (findCaptureSequences (pieces p) s [] [] [] (currentPlayer p) 0)"
    by (auto simp: allCaptures_def split: if_splits)
  then have "m \<in> snd ` set (findCaptureSequencesTraced (pieces p) s [] [] [] (currentPlayer p) 0)"
    using traced_erasure [of "pieces p" s "[]" "[]" "[]" "currentPlayer p" 0]
    by (metis set_map)
  then obtain tr where
    tr: "(tr, m) \<in> set (findCaptureSequencesTraced (pieces p) s [] [] [] (currentPlayer p) 0)"
    by auto
  from traced_invariant [OF tr] have
    inv: "distinct tr \<and> distinct (captures m) \<and> hd tr = from m \<and> last tr = to m
       \<and> length tr = Suc (length (captures m)) \<and> take (Suc 0) tr = [s]"
    by simp
  then have "hd tr = s"
    by (cases tr) auto
  with inv tr show ?thesis by auto
qed

text \<open>
  The theorem at the four-capture move of \<open>flyingKingPosition\<close>: five distinct squares.
\<close>

theorem capture_sequences_visit_distinct_squares_witness:
  "flyingKingMove \<in> set (getAvailableCaptures flyingKingPosition)
   \<and> (\<exists>tr. (tr, flyingKingMove) \<in> set (findCaptureSequencesTraced (pieces flyingKingPosition) (sq 5 4) [] [] [] PLAYER_WHITE 0)
        \<and> distinct tr \<and> distinct (captures flyingKingMove) \<and> length tr = 5)"
proof -
  have h: "flyingKingMove \<in> set (getAvailableCaptures flyingKingPosition)" by code_simp
  have e: "from flyingKingMove = sq 5 4" "currentPlayer flyingKingPosition = PLAYER_WHITE"
    "length (captures flyingKingMove) = 4"
    by (simp_all add: flyingKingMove_def flyingKingPosition_def)
  from capture_sequences_visit_distinct_squares [OF h] h show ?thesis
    by (auto simp: e)
qed

section \<open>Properties of the static exchange evaluation\<close>

text \<open>
  Claim C4. \<open>evenTradeMove\<close> is the capture the generator returns for \<open>evenTradePosition\<close>:
  a man takes a man. In the position after it, Black has exactly one capture, the man on
  (3,0) taking the man that has just landed on (4,1), and after that capture no capture is
  left: an even trade, for which the claim gives 100 - 100 = 0. \<open>staticExchangeEvaluation\<close>
  looks for the recaptures with the mover as the side to move, finds none, and returns the
  gain of 100.
\<close>

theorem staticExchangeEvaluation_ignores_recapture:
  "evenTradeMove \<in> set (getAvailableCaptures evenTradePosition)
   \<and> getAvailableCaptures (makeMove evenTradePosition evenTradeMove) = [evenTradeRecapture]
   \<and> getAvailableCaptures (makeMove (makeMove evenTradePosition evenTradeMove) evenTradeRecapture) = []
   \<and> getPieceValue (pieceAt (pieces evenTradePosition) (sq 5 2)) = 100
   \<and> getPieceValue (pieceAt (pieces evenTradePosition) (from evenTradeMove)) = 100
   \<and> getPieceValue (pieceAt (pieces (makeMove evenTradePosition evenTradeMove))
         (from evenTradeRecapture)) = 100
   \<and> staticExchangeEvaluation evenTradePosition evenTradeMove = Some 100"
  by (subst staticExchangeEvaluation.simps) code_simp

section \<open>Positions and the grids they share\<close>

lemma setCell_restore:
  "setCell (setCell g r c v) r c (cell g r c) = g"
  by (cases "nat r < length g")
     (simp_all add: setCell_def cell_def list_update_beyond)

lemma makeMoveObj_keeps_grid:
  "piecesRef po < nextFree st \<Longrightarrow>
   grids (fst (makeMoveObj st po m)) (piecesRef po) = grids st (piecesRef po)
   \<and> piecesRef (snd (makeMoveObj st po m)) \<noteq> piecesRef po
   \<and> positionIn (fst (makeMoveObj st po m)) (snd (makeMoveObj st po m))
       = makeMove (positionIn st po) m"
  by (simp add: makeMoveObj_def Let_def positionIn_def makeMove_def)

lemma countAttackersObj_restores_grid:
  "fst (countAttackersObj st po r c attackingPlayer) = st"
  by (simp add: countAttackersObj_def Let_def setCell_restore)

text \<open>
  Claim C6. \<open>sharedPosition\<close> is the position \<open>promotionPosition\<close> held in \<open>sharedStore\<close>.
  After \<open>detectPinsAndSkewers\<close> has returned, the White man on (2,3) is gone from the grid
  of the very position that was passed in: the function empties each square of the side to
  move through a shallow copy of the position and writes nothing back.
\<close>

theorem detectPinsAndSkewers_empties_given_position:
  "positionIn sharedStore sharedPosition = promotionPosition
   \<and> pieceAt (pieces (positionIn sharedStore sharedPosition)) (sq 2 3) = WHITE
   \<and> pieceAt (pieces (positionIn (fst (detectPinsAndSkewers sharedStore sharedPosition))
                        sharedPosition)) (sq 2 3) = NONE
   \<and> snd (detectPinsAndSkewers sharedStore sharedPosition) = []"
  by code_simp

section \<open>Properties of the generated moves and of the safety check\<close>

text \<open>
  Every square a recorded capture sequence takes holds an opponent piece in the grid the
  search started from: the capturing piece is not an opponent piece, and the only other
  changes a jump makes to the grid are emptied squares.
\<close>


lemma findEnemy_Some:
  "findEnemy g pl d r c = Some e \<Longrightarrow> validSq e \<and> isOpponentPiece (pieceAt g e) pl"
proof (induction g pl d r c rule: findEnemy.induct)
  case (1 g pl d r c)
  show ?case
  proof (cases "isValidSquare r c \<and> cell g r c = NONE")
    case True
    with "1.prems" have "findEnemy g pl d (r + dy d) (c + dx d) = Some e"
      by (subst (asm) findEnemy.simps) simp
    with "1.IH" True show ?thesis by simp
  next
    case False
    with "1.prems" show ?thesis
      by (subst (asm) findEnemy.simps)
         (auto simp: Let_def validSq_def pieceAt_def split: if_splits)
  qed
qed

lemma landingSquares_valid:
  "l \<in> set (landingSquares g d r c) \<Longrightarrow> validSq l \<and> pieceAt g l = NONE"
proof (induction g d r c rule: landingSquares.induct)
  case (1 g d r c)
  show ?case
  proof (cases "isValidSquare r c \<and> cell g r c = NONE")
    case True
    with "1.prems" have "l = \<lparr>row = r, col = c\<rparr> \<or> l \<in> set (landingSquares g d (r + dy d) (c + dx d))"
      by (subst (asm) landingSquares.simps) simp
    with "1.IH" True show ?thesis by (auto simp: validSq_def pieceAt_def)
  next
    case False
    with "1.prems" show ?thesis
      by (subst (asm) landingSquares.simps) simp
  qed
qed

lemma manJumps_valid:
  assumes "validSq pos" and "j \<in> set (manJumps g pos cap pl d)"
  shows "validSq (fst j) \<and> validSq (snd j) \<and> isOpponentPiece (pieceAt g (fst j)) pl"
proof -
  from assms(2) have j: "fst j = \<lparr>row = row pos + dy d, col = col pos + dx d\<rparr>"
      "snd j = \<lparr>row = row pos + 2 * dy d, col = col pos + 2 * dx d\<rparr>"
      "isValidSquare (row pos + 2 * dy d) (col pos + 2 * dx d)"
      "isOpponentPiece (pieceAt g \<lparr>row = row pos + dy d, col = col pos + dx d\<rparr>) pl"
    by (auto simp: manJumps_def Let_def split: if_splits)
  from assms(1) j(3) have "isValidSquare (row pos + dy d) (col pos + dx d)"
    by (cases d) (auto simp: validSq_def isValidSquare_def BOARD_SIZE_def)
  with j show ?thesis by (simp add: validSq_def)
qed

lemma kingJumps_valid:
  assumes "j \<in> set (kingJumps g pos cap pl d)"
  shows "validSq (fst j) \<and> validSq (snd j) \<and> isOpponentPiece (pieceAt g (fst j)) pl"
  using assms findEnemy_Some landingSquares_valid
  by (fastforce simp: kingJumps_def split: option.splits if_splits)

lemma jumpsFrom_valid:
  assumes "validSq pos" and "j \<in> set (jumpsFrom g pos cap pl)"
  shows "validSq (fst j) \<and> validSq (snd j) \<and> isOpponentPiece (pieceAt g (fst j)) pl"
proof -
  from assms(2) obtain d where
    d: "j \<in> set (if isKing (pieceAt g pos) then kingJumps g pos cap pl d
                   else manJumps g pos cap pl d)"
    unfolding jumpsFrom_def by (cases "isKing (pieceAt g pos)") auto
  show ?thesis
  proof (cases "isKing (pieceAt g pos)")
    case True
    with d have "j \<in> set (kingJumps g pos cap pl d)" by simp
    then show ?thesis by (rule kingJumps_valid)
  next
    case False
    with d have "j \<in> set (manJumps g pos cap pl d)" by simp
    with assms(1) show ?thesis by (rule manJumps_valid)
  qed
qed

lemma wf_applyJump: "wf_grid g \<Longrightarrow> wf_grid (applyJump g pos e l)"
  by (simp add: applyJump_def wf_setPiece)

lemma pieceAt_applyJump:
  "wf_grid g \<Longrightarrow> validSq pos \<Longrightarrow> validSq e \<Longrightarrow> validSq l \<Longrightarrow> validSq s \<Longrightarrow>
   pieceAt (applyJump g pos e l) s =
     (if s = l then pieceAt g pos else if s = e \<or> s = pos then NONE else pieceAt g s)"
proof -
  assume wf: "wf_grid g" and v: "validSq pos" "validSq e" "validSq l" "validSq s"
  have w1: "wf_grid (setPiece g pos NONE)" using wf by (rule wf_setPiece)
  have w2: "wf_grid (setPiece (setPiece g pos NONE) e NONE)" using w1 by (rule wf_setPiece)
  have "pieceAt (applyJump g pos e l) s
      = (if l = s then pieceAt g pos
         else if e = s then NONE else if pos = s then NONE else pieceAt g s)"
    unfolding applyJump_def
    by (simp only: pieceAt_setPiece [OF w2 v(3) v(4)] pieceAt_setPiece [OF w1 v(2) v(4)]
        pieceAt_setPiece [OF wf v(1) v(4)])
  then show ?thesis by auto
qed

lemma not_opponent_NONE [simp]: "\<not> isOpponentPiece NONE pl"
  by (simp add: isOpponentPiece_def)

lemma findCaptureSequences_invariant:
  "m \<in> set (findCaptureSequences g pos path cap vis pl d) \<Longrightarrow>
   wf_grid g \<Longrightarrow> validSq pos \<Longrightarrow> \<not> isOpponentPiece (pieceAt g pos) pl \<Longrightarrow>
   (\<forall>c\<in>set (captures m). c \<in> set cap \<or> (validSq c \<and> isOpponentPiece (pieceAt g c) pl))
   \<and> validSq (to m) \<and> captures m \<noteq> []
   \<and> from m = (case path of [] \<Rightarrow> pos | p0 # _ \<Rightarrow> p0)"
proof (induction g pos path cap vis pl d arbitrary: m rule: findCaptureSequences.induct)
  case (1 g pos path cap vis pl d)
  note mem = "1.prems"(1)
  have nd: "\<not> d > 20" and nv: "pos \<notin> set vis"
    using mem by (subst (asm) findCaptureSequences.simps, simp split: if_splits)+
  define jumps where "jumps = jumpsFrom g pos cap pl"
  from mem nd nv consider
    (rec) j where "j \<in> set jumps"
      "m \<in> set (findCaptureSequences (applyJump g pos (fst j) (snd j)) (snd j)
           (path @ [pos]) (cap @ [fst j]) (vis @ [pos]) pl (d + 1))"
    | (here) "jumps = []" "cap \<noteq> []"
        "m = \<lparr>from = (case path of [] \<Rightarrow> pos | p0 # _ \<Rightarrow> p0), to = pos, captures = cap\<rparr>"
    by (subst (asm) findCaptureSequences.simps)
       (auto simp: Let_def jumps_def split: if_splits)
  then show ?case
  proof cases
    case rec
    from jumpsFrom_valid [OF "1.prems"(3)] rec(1)
    have jv: "validSq (fst j)" "validSq (snd j)" "isOpponentPiece (pieceAt g (fst j)) pl"
      unfolding jumps_def by blast+
    let ?g' = "applyJump g pos (fst j) (snd j)"
    have wf': "wf_grid ?g'" using "1.prems"(2) by (rule wf_applyJump)
    have at: "\<And>s. validSq s \<Longrightarrow> pieceAt ?g' s =
        (if s = snd j then pieceAt g pos else if s = fst j \<or> s = pos then NONE else pieceAt g s)"
      using pieceAt_applyJump [OF "1.prems"(2,3) jv(1,2)] by blast
    have mover: "\<not> isOpponentPiece (pieceAt ?g' (snd j)) pl"
      using at [OF jv(2)] "1.prems"(4) by simp
    from "1.IH" [OF nd nv jumps_def rec(1) rec(2) wf' jv(2) mover]
    have ih: "\<forall>c\<in>set (captures m). c \<in> set (cap @ [fst j])
                \<or> (validSq c \<and> isOpponentPiece (pieceAt ?g' c) pl)"
      and rest: "validSq (to m)" "captures m \<noteq> []"
        "from m = (case path @ [pos] of [] \<Rightarrow> snd j | p0 # _ \<Rightarrow> p0)"
      by blast+
    have "\<forall>c\<in>set (captures m). c \<in> set cap \<or> (validSq c \<and> isOpponentPiece (pieceAt g c) pl)"
    proof
      fix c assume "c \<in> set (captures m)"
      with ih have "c \<in> set cap \<or> c = fst j \<or> (validSq c \<and> isOpponentPiece (pieceAt ?g' c) pl)"
        by auto
      then show "c \<in> set cap \<or> (validSq c \<and> isOpponentPiece (pieceAt g c) pl)"
        using jv at [of c] "1.prems"(4) by (auto split: if_splits)
    qed
    moreover have "from m = (case path of [] \<Rightarrow> pos | p0 # _ \<Rightarrow> p0)"
      using rest(3) by (cases path) simp_all
    ultimately show ?thesis using rest(1,2) by simp
  next
    case here
    then show ?thesis using "1.prems"(3) by simp
  qed
qed


lemma boardSquares_valid: "s \<in> set boardSquares \<Longrightarrow> validSq s"
  by (auto simp: boardSquares_def validSq_def isValidSquare_def BOARD_SIZE_def)

lemma own_not_opponent: "isPieceOfCurrentPlayer pc pl \<Longrightarrow> \<not> isOpponentPiece pc pl"
  by (cases pl; cases pc) (auto simp: isPieceOfCurrentPlayer_def isOpponentPiece_def)

lemma allCaptures_moves:
  assumes "m \<in> set (allCaptures p)" and "wf_grid (pieces p)"
  shows "isPieceOfCurrentPlayer (pieceAt (pieces p) (from m)) (currentPlayer p)
     \<and> validSq (from m) \<and> validSq (to m) \<and> captures m \<noteq> []
     \<and> (\<forall>c\<in>set (captures m). validSq c \<and> isOpponentPiece (pieceAt (pieces p) c) (currentPlayer p))"
proof -
  from assms(1) obtain s where s: "s \<in> set boardSquares"
      "isPieceOfCurrentPlayer (pieceAt (pieces p) s) (currentPlayer p)"
      "m \<in> set (findCaptureSequences (pieces p) s [] [] [] (currentPlayer p) 0)"
    unfolding allCaptures_def by (auto split: if_splits)
  from findCaptureSequences_invariant [OF s(3) assms(2) boardSquares_valid [OF s(1)]
      own_not_opponent [OF s(2)]]
  show ?thesis using s(1,2) boardSquares_valid by simp
qed

lemma getAvailableCaptures_moves:
  assumes "m \<in> set (getAvailableCaptures p)" and "wf_grid (pieces p)"
  shows "isPieceOfCurrentPlayer (pieceAt (pieces p) (from m)) (currentPlayer p)
     \<and> validSq (from m) \<and> validSq (to m) \<and> captures m \<noteq> []
     \<and> (\<forall>c\<in>set (captures m). validSq c \<and> isOpponentPiece (pieceAt (pieces p) c) (currentPlayer p))"
  using assms getAvailableCaptures_subset allCaptures_moves by blast

lemma slideMoves_moves:
  "m \<in> set (slideMoves dark g src d r c) \<Longrightarrow> from m = src \<and> validSq (to m) \<and> captures m = []"
proof (induction dark g src d r c rule: slideMoves.induct)
  case (1 dark g src d r c)
  show ?case
  proof (cases "isValidSquare r c \<and> cell g r c = NONE \<and> dark r c")
    case True
    with "1.prems" have "m = \<lparr>from = src, to = \<lparr>row = r, col = c\<rparr>, captures = []\<rparr>
        \<or> m \<in> set (slideMoves dark g src d (r + dy d) (c + dx d))"
      by (subst (asm) slideMoves.simps) simp
    with "1.IH" True show ?thesis by (auto simp: validSq_def)
  next
    case False
    with "1.prems" show ?thesis by (subst (asm) slideMoves.simps) simp
  qed
qed

lemma addNormalMovesForPiece_moves:
  assumes "m \<in> set (addNormalMovesForPiece dark p r c)"
  shows "from m = \<lparr>row = r, col = c\<rparr> \<and> validSq (to m) \<and> captures m = []"
proof (cases "isKing (cell (pieces p) r c)")
  case True
  with assms obtain d where "m \<in> set (slideMoves dark (pieces p) \<lparr>row = r, col = c\<rparr> d (r + dy d) (c + dx d))"
    by (auto simp: addNormalMovesForPiece_def)
  then show ?thesis by (rule slideMoves_moves)
next
  case False
  with assms show ?thesis
    by (auto simp: addNormalMovesForPiece_def Let_def validSq_def split: if_splits)
qed

lemma normalMoves_moves:
  assumes "m \<in> set (normalMoves dark p)"
  shows "isPieceOfCurrentPlayer (pieceAt (pieces p) (from m)) (currentPlayer p)
     \<and> validSq (from m) \<and> validSq (to m) \<and> captures m = []"
proof -
  from assms obtain s where s: "s \<in> set boardSquares"
      "isPieceOfCurrentPlayer (pieceAt (pieces p) s) (currentPlayer p)"
      "m \<in> set (addNormalMovesForPiece dark p (row s) (col s))"
    unfolding normalMoves_def by (auto split: if_splits)
  from addNormalMovesForPiece_moves [OF s(3)] have "from m = s" "validSq (to m)" "captures m = []"
    by simp_all
  with s show ?thesis using boardSquares_valid by simp
qed

lemma generateMoves_moves:
  assumes "m \<in> set (generateMoves dark p)" and "wf_grid (pieces p)"
  shows "isPieceOfCurrentPlayer (pieceAt (pieces p) (from m)) (currentPlayer p)
     \<and> validSq (from m) \<and> validSq (to m)
     \<and> (\<forall>c\<in>set (captures m). validSq c)"
proof (cases "getAvailableCaptures p = []")
  case True
  with assms(1) have "m \<in> set (normalMoves dark p)" by (simp add: generateMoves_def)
  from normalMoves_moves [OF this] show ?thesis by simp
next
  case False
  with assms(1) have "m \<in> set (getAvailableCaptures p)" by (simp add: generateMoves_def)
  from getAvailableCaptures_moves [OF this assms(2)] show ?thesis by simp
qed


lemma capturesSquare_iff: "capturesSquare m s = (s \<in> set (captures m))"
proof -
  have "\<And>p. (row p = row s \<and> col p = col s) = (p = s)"
    using square_eq_iff [of _ s] by simp
  then show ?thesis
    by (simp add: capturesSquare_def list_ex_iff)
qed

lemma own_square_not_captured:
  assumes "wf_grid (pieces q)"
    and "\<not> isOpponentPiece (pieceAt (pieces q) t) (currentPlayer q)"
    and "recap \<in> set (getAvailableCaptures q)"
  shows "\<not> capturesSquare recap t"
  using getAvailableCaptures_moves [OF assms(3) assms(1)] assms(2)
  by (auto simp: capturesSquare_iff)

lemma wf_makeMove: "wf_grid (pieces p) \<Longrightarrow> wf_grid (pieces (makeMove p m))"
  by (simp add: makeMove_def Let_def wf_setPiece wf_clear)

lemma makeMove_destination_not_opponent:
  assumes wf: "wf_grid (pieces p)" and v: "validSq (from m)" "validSq (to m)"
    and vc: "\<forall>c\<in>set (captures m). validSq c"
    and own: "isPieceOfCurrentPlayer (pieceAt (pieces p) (from m)) pl"
  shows "\<not> isOpponentPiece (pieceAt (pieces (makeMove p m)) (to m)) pl"
proof -
  define piece where "piece = pieceAt (pieces p) (from m)"
  define g2 where "g2 = setPiece (setPiece (pieces p) (from m) NONE) (to m) piece"
  define g3 where "g3 = foldl (\<lambda>g cap. setPiece g cap NONE) g2 (captures m)"
  have wf2: "wf_grid g2" unfolding g2_def using wf by (simp add: wf_setPiece)
  have wf3: "wf_grid g3" unfolding g3_def using wf2 by (rule wf_clear)
  have at2: "pieceAt g2 (to m) = piece"
    unfolding g2_def using wf v by (simp add: pieceAt_setPiece wf_setPiece)
  have at3: "pieceAt g3 (to m) = (if to m \<in> set (captures m) then NONE else piece)"
    unfolding g3_def using pieceAt_clear [OF wf2 vc v(2)] at2 by simp
  have g4: "pieces (makeMove p m) =
      (if shouldPromote piece (row (to m))
       then setPiece g3 (to m) (if piece = WHITE then WHITE_KING else BLACK_KING) else g3)"
    by (simp add: makeMove_def Let_def piece_def g2_def g3_def)
  have no: "\<not> isOpponentPiece piece pl" using own own_not_opponent piece_def by blast
  show ?thesis
  proof (cases "shouldPromote piece (row (to m))")
    case True
    then have "pieceAt (pieces (makeMove p m)) (to m) = (if piece = WHITE then WHITE_KING else BLACK_KING)"
      using g4 wf3 v(2) by (simp add: pieceAt_setPiece)
    moreover from True have "piece = WHITE \<or> piece = BLACK" by (auto simp: shouldPromote_def)
    ultimately show ?thesis
      using own by (cases pl) (auto simp: isOpponentPiece_def isPieceOfCurrentPlayer_def piece_def)
  next
    case False
    then have "pieceAt (pieces (makeMove p m)) (to m) = (if to m \<in> set (captures m) then NONE else piece)"
      using g4 at3 by simp
    then show ?thesis using no by simp
  qed
qed

lemma gain_nonneg: "0 \<le> acc \<Longrightarrow> 0 \<le> foldl (\<lambda>acc cap. acc + getPieceValue (pieceAt g cap)) acc caps"
proof (induction caps arbitrary: acc)
  case Nil
  then show ?case by simp
next
  case (Cons c caps)
  have "0 \<le> getPieceValue (pieceAt g c)"
    by (cases "pieceAt g c") (simp_all add: getPieceValue_def)
  with Cons show ?case by simp
qed

lemma staticExchangeEvaluation_generated:
  assumes gen: "m \<in> set (generateMoves dark p)" and wf: "wf_grid (pieces p)"
    and cap: "captures m \<noteq> []"
  shows "staticExchangeEvaluation p m =
     Some (foldl (\<lambda>acc c. acc + getPieceValue (pieceAt (pieces p) c)) 0 (captures m))"
proof -
  define afterMove where "afterMove = (makeMove p m)\<lparr>currentPlayer := currentPlayer p\<rparr>"
  from generateMoves_moves [OF gen wf] have
    own: "isPieceOfCurrentPlayer (pieceAt (pieces p) (from m)) (currentPlayer p)"
    and v: "validSq (from m)" "validSq (to m)" and vc: "\<forall>c\<in>set (captures m). validSq c"
    by simp_all
  have wfa: "wf_grid (pieces afterMove)"
    unfolding afterMove_def using wf by (simp add: wf_makeMove)
  have "\<not> isOpponentPiece (pieceAt (pieces afterMove) (to m)) (currentPlayer afterMove)"
    unfolding afterMove_def using makeMove_destination_not_opponent [OF wf v vc own] by simp
  then have "\<forall>recap\<in>set (getAvailableCaptures afterMove). \<not> capturesSquare recap (to m)"
    using own_square_not_captured [OF wfa] by blast
  then have none: "filter (\<lambda>recap. capturesSquare recap (to m)) (getAvailableCaptures afterMove) = []"
    by (simp add: filter_empty_conv)
  show ?thesis
    by (subst staticExchangeEvaluation.simps)
       (simp add: cap Let_def afterMove_def [symmetric] none)
qed

lemma isMoveReallySafe_generated:
  assumes gen: "m \<in> set (generateMoves dark p)" and wf: "wf_grid (pieces p)"
  shows "isMoveReallySafe p m = Some True"
proof (cases "captures m = []")
  case False
  then show ?thesis
    using staticExchangeEvaluation_generated [OF gen wf False] gain_nonneg [of 0]
    by (simp add: isMoveReallySafe_def)
next
  case True
  define afterMove where "afterMove = (makeMove p m)\<lparr>currentPlayer := currentPlayer p\<rparr>"
  from generateMoves_moves [OF gen wf] have
    own: "isPieceOfCurrentPlayer (pieceAt (pieces p) (from m)) (currentPlayer p)"
    and v: "validSq (from m)" "validSq (to m)" and vc: "\<forall>c\<in>set (captures m). validSq c"
    by simp_all
  have wfa: "wf_grid (pieces afterMove)"
    unfolding afterMove_def using wf by (simp add: wf_makeMove)
  have "\<not> isOpponentPiece (pieceAt (pieces afterMove) (to m)) (currentPlayer afterMove)"
    unfolding afterMove_def using makeMove_destination_not_opponent [OF wf v vc own] by simp
  then have "\<forall>recap\<in>set (getAvailableCaptures afterMove). \<not> capturesSquare recap (to m)"
    using own_square_not_captured [OF wfa] by blast
  then have "\<not> list_ex (\<lambda>response. capturesSquare response (to m)) (getAvailableCaptures afterMove)"
    by (simp add: list_ex_iff)
  then show ?thesis
    using True by (simp add: isMoveReallySafe_def Let_def afterMove_def [symmetric])
qed

section \<open>Properties of the search driver\<close>


lemma orderMovesAtRoot_set: "set (orderMovesAtRoot e w p ms) = set ms"
proof -
  have "map snd (zip [0..<length ms] ms) = ms" by (simp add: map_snd_zip)
  then have "snd ` set (zip [0..<length ms] ms) = set ms" by (metis set_map)
  then show ?thesis by (simp add: orderMovesAtRoot_def)
qed

lemma orElseFirst_cases: "orElseFirst b ms = Some m \<Longrightarrow> b = Some m \<or> m \<in> set ms"
  by (auto simp: orElseFirst_def split: option.splits list.splits)

lemma rootLoop_move:
  "r_move (fst (rootLoop e dark p depth beta startTime timeLimit ms i remaining w alpha bestMove bestScore)) = Some m
   \<Longrightarrow> set remaining \<subseteq> set ms \<Longrightarrow> (\<forall>x. bestMove = Some x \<longrightarrow> x \<in> set ms) \<Longrightarrow> m \<in> set ms"
proof (induction remaining arbitrary: i w alpha bestMove bestScore)
  case Nil
  then have "orElseFirst bestMove ms = Some m" by simp
  with Nil.prems(3) orElseFirst_cases show ?case by blast
next
  case (Cons mv remaining)
  define w1 where "w1 = snd (dateNow e w)"
  define newPosition where
    "newPosition = (makeMove p mv)\<lparr>history := history p @ [generateKey dark p]\<rparr>"
  define first where "first = (if i = 0
      then negamaxResult e w1 newPosition (depth - 1) (neg beta) (neg alpha) startTime timeLimit 0 1
      else negamaxResult e w1 newPosition (depth - 1) (addNum (neg alpha) (- 1))
                             (neg alpha) startTime timeLimit 0 1)"
  define again where "again = (i \<noteq> 0 \<and> neg (fst first) > alpha \<and> neg (fst first) < beta)"
  define score where "score = (if again
      then neg (fst (negamaxResult e (snd first) newPosition (depth - 1) (neg beta) (neg alpha)
                            startTime timeLimit 0 1)) else neg (fst first))"
  define w2 where "w2 = (if again
      then snd (negamaxResult e (snd first) newPosition (depth - 1) (neg beta) (neg alpha)
                            startTime timeLimit 0 1) else snd first)"
  define bestMove' where "bestMove' = (if score > bestScore then Some mv else bestMove)"
  define bestScore' where "bestScore' = (if score > bestScore then score else bestScore)"
  have bm': "\<forall>x. bestMove' = Some x \<longrightarrow> x \<in> set ms"
    using Cons.prems(2,3) by (auto simp: bestMove'_def)
  have sub: "set remaining \<subseteq> set ms" using Cons.prems(2) by simp
  have unfold: "rootLoop e dark p depth beta startTime timeLimit ms i (mv # remaining) w alpha bestMove bestScore
     = (if fst (dateNow e w) - startTime > timeLimit \<or> searchAborted w1
        then (\<lparr>r_move = orElseFirst bestMove ms, r_score = bestScore, r_timeout = True\<rparr>, w1)
        else if max alpha score \<ge> beta
        then (\<lparr>r_move = orElseFirst bestMove' ms, r_score = bestScore', r_timeout = False\<rparr>,
                  w2\<lparr>killerMoves := updateKillerMoves mv 0 (killerMoves w2)\<rparr>)
        else rootLoop e dark p depth beta startTime timeLimit ms (i + 1) remaining
                   w2 (max alpha score) bestMove' bestScore')"
    by (simp add: Let_def w1_def newPosition_def first_def again_def score_def w2_def
        bestMove'_def bestScore'_def)
  from Cons.prems(1) consider
    (a) "orElseFirst bestMove ms = Some m"
    | (b) "orElseFirst bestMove' ms = Some m"
    | (c) "r_move (fst (rootLoop e dark p depth beta startTime timeLimit ms (i + 1) remaining
                   w2 (max alpha score) bestMove' bestScore')) = Some m"
    unfolding unfold by (auto split: if_splits)
  then show ?case
  proof cases
    case a
    with Cons.prems(3) orElseFirst_cases show ?thesis by blast
  next
    case b
    with bm' orElseFirst_cases show ?thesis by blast
  next
    case c
    from Cons.IH [OF c sub bm'] show ?thesis .
  qed
qed

lemma searchBestMove_move:
  "r_move (fst (searchBestMove e dark w p depth alpha beta startTime timeLimit)) = Some m
   \<Longrightarrow> m \<in> set (generateMoves dark p)"
  unfolding searchBestMove_def Let_def
  using rootLoop_move [of e dark p depth beta startTime timeLimit
      "orderMovesAtRoot e w p (generateMoves dark p)" 0
      "orderMovesAtRoot e w p (generateMoves dark p)" "rootOrderEffect e w p" alpha None NegInfinity m]
  by (simp add: orderMovesAtRoot_set)



lemma deepenStep_bestMove:
  assumes "d_bestMove st \<in> set (generateMoves dark p)"
    and "deepenStep e dark p startTime maxDepth depth st = out"
    and "out = Exhausted st' \<or> out = Decisive st' \<or> out = NextDepth st'"
  shows "d_bestMove st' \<in> set (generateMoves dark p)"
proof -
  define w1 where "w1 = snd (dateNow e (d_world st))"
  define narrow where "narrow = (depth > 3 \<and> absNum (d_lastScore st) < Num 1000)"
  define alpha where "alpha = (if narrow then addNum (d_lastScore st) (- INITIAL_DELTA) else NegInfinity)"
  define beta where "beta = (if narrow then addNum (d_lastScore st) INITIAL_DELTA else Infinity)"
  define res1 where "res1 = searchBestMove e dark w1 p depth alpha beta startTime (d_timeLimit st)"
  define failed where "failed = (r_score (fst res1) \<le> alpha \<or> r_score (fst res1) \<ge> beta)"
  define retry where "retry = searchBestMove e dark (snd res1) p depth NegInfinity Infinity
                          startTime (d_timeLimit st)"
  define result where "result = (if failed \<and> r_move (fst retry) \<noteq> None
                          then (fst res1)\<lparr>r_move := r_move (fst retry),
                                           r_score := r_score (fst retry)\<rparr>
                          else fst res1)"
  have res_move: "\<And>mv. r_move result = Some mv \<Longrightarrow> mv \<in> set (generateMoves dark p)"
    using searchBestMove_move [of e dark w1 p depth alpha beta startTime "d_timeLimit st"]
      searchBestMove_move [of e dark "snd res1" p depth NegInfinity Infinity startTime "d_timeLimit st"]
    by (auto simp: result_def res1_def retry_def split: if_splits)
  from assms(2,3) have
    "d_bestMove st' = d_bestMove st \<or> (\<exists>mv. r_move result = Some mv \<and> d_bestMove st' = mv)"
    unfolding deepenStep_def Let_def
    unfolding w1_def [symmetric] narrow_def [symmetric]
    unfolding alpha_def [symmetric] beta_def [symmetric]
    unfolding res1_def [symmetric]
    unfolding failed_def [symmetric] retry_def [symmetric]
    unfolding result_def [symmetric]
    by (auto split: if_splits option.splits)
  with assms(1) res_move show ?thesis by auto
qed

lemma iterativeDeepening_bestMove:
  "d_bestMove st \<in> set (generateMoves dark p) \<Longrightarrow>
   d_bestMove (iterativeDeepening e dark p startTime maxDepth depth st) \<in> set (generateMoves dark p)"
proof (induction e dark p startTime maxDepth depth st rule: iterativeDeepening.induct)
  case (1 e dark p startTime maxDepth depth st)
  show ?case
  proof (cases "depth \<le> maxDepth")
    case False
    then show ?thesis using "1.prems" by (subst iterativeDeepening.simps) simp
  next
    case True
    show ?thesis
    proof (cases "deepenStep e dark p startTime maxDepth depth st")
      case (Exhausted st')
      with deepenStep_bestMove [OF "1.prems" Exhausted] True show ?thesis
        by (subst iterativeDeepening.simps) simp
    next
      case (Decisive st')
      with deepenStep_bestMove [OF "1.prems" Decisive] True show ?thesis
        by (subst iterativeDeepening.simps) simp
    next
      case (NextDepth st')
      from deepenStep_bestMove [OF "1.prems" NextDepth] have "d_bestMove st' \<in> set (generateMoves dark p)"
        by simp
      from "1.IH" [OF True NextDepth this] True NextDepth show ?thesis
        by (subst iterativeDeepening.simps) simp
    qed
  qed
qed

lemma iterativeDeepening_exhausted:
  "1 \<le> maxDepth \<Longrightarrow> deepenStep e dark p startTime maxDepth 1 st = Exhausted st' \<Longrightarrow>
   iterativeDeepening e dark p startTime maxDepth 1 st = st' \<and> d_bestMove st' = d_bestMove st"
  by (subst iterativeDeepening.simps)
     (auto simp: deepenStep_def Let_def split: if_splits option.splits)

lemma finalSafetyCheck_generated:
  "wf_grid (pieces p) \<Longrightarrow> best \<in> set (generateMoves dark p) \<Longrightarrow>
   finalSafetyCheck e w p ms best = Some best"
  by (simp add: finalSafetyCheck_def isMoveReallySafe_generated)

lemma quickTacticalScan_move: "quickTacticalScan e p ms = Some m \<Longrightarrow> m \<in> set ms"
proof -
  assume a: "quickTacticalScan e p ms = Some m"
  define caps where "caps = filter (\<lambda>m. length (captures m) > 0) ms"
  define sorted where "sorted = sort_key (\<lambda>m. - evaluateCaptureSequence e p m) caps"
  from a have "m = sorted ! 0" and "length caps > 0"
    by (auto simp: quickTacticalScan_def Let_def caps_def sorted_def split: if_splits)
  then have "0 < length sorted" by (simp add: sorted_def)
  with \<open>m = sorted ! 0\<close> have "m \<in> set sorted" by (metis nth_mem)
  then show ?thesis by (auto simp: sorted_def caps_def)
qed

lemma MAX_DEPTH_pos: "1 \<le> MAX_DEPTH l"
  by (simp add: MAX_DEPTH_def)

lemma searchSetup_start:
  "ms \<noteq> [] \<Longrightarrow> 1 \<le> fst (searchSetup e p h ms w) \<and> d_bestMove (snd (searchSetup e p h ms w)) = ms ! 0"
  using MAX_DEPTH_pos [of "level e"] by (simp add: searchSetup_def Let_def)


text \<open>
  Claim C7, amended. On a 10 x 10 grid \<open>getBestMove\<close> returns. It returns no move exactly
  when the generator returns no move. When the generator returns exactly one move, that move
  is returned and the engine state is the state after the initial resets: nothing was
  searched. Every returned move is a generated move, or it is the answer of the opening book
  (returned as it is when more than one move is generated and no capture is forced). When
  there is no forced capture and no book answer and the first pass of the deepening loop
  ends on the time budget or the abort flag, the first generated move is returned.
\<close>

theorem getBestMove_returns:
  assumes wf: "wf_grid (pieces p)"
  shows "\<exists>r w'. getBestMove e dark w p h = Some (r, w')
     \<and> (r = None \<longleftrightarrow> generateMoves dark p = [])
     \<and> (\<forall>m. generateMoves dark p = [m] \<longrightarrow> r = Some m \<and> w' = resetSearch (snd (dateNow e w)))
     \<and> (\<forall>m. r = Some m \<longrightarrow>
            m \<in> set (generateMoves dark p)
            \<or> (bookMove e p h = Some m \<and> 1 < length (generateMoves dark p)
                \<and> quickTacticalScan e p (generateMoves dark p) = None))
     \<and> (1 < length (generateMoves dark p)
          \<and> quickTacticalScan e p (generateMoves dark p) = None \<and> bookMove e p h = None
          \<and> (\<exists>st'. deepenStep e dark p (fst (dateNow e w))
                      (fst (searchSetup e p h (generateMoves dark p) (resetSearch (snd (dateNow e w)))))
                      1
                      (snd (searchSetup e p h (generateMoves dark p) (resetSearch (snd (dateNow e w)))))
                    = Exhausted st')
          \<longrightarrow> r = Some (generateMoves dark p ! 0))"
proof -
  define ms where "ms = generateMoves dark p"
  define w1 where "w1 = resetSearch (snd (dateNow e w))"
  define cfg where "cfg = searchSetup e p h ms w1"
  define st where "st = iterativeDeepening e dark p (fst (dateNow e w)) (fst cfg) 1 (snd cfg)"
  consider (none) "ms = []" | (one) m where "ms = [m]"
    | (forced) f where "1 < length ms" "quickTacticalScan e p ms = Some f"
    | (book) b where "1 < length ms" "quickTacticalScan e p ms = None" "bookMove e p h = Some b"
    | (search) "1 < length ms" "quickTacticalScan e p ms = None" "bookMove e p h = None"
  proof (cases ms)
    case Nil
    then show ?thesis using none by simp
  next
    case (Cons a rest)
    show ?thesis
    proof (cases rest)
      case Nil
      with Cons show ?thesis using one by simp
    next
      case (Cons b rest')
      with \<open>ms = a # rest\<close> have "1 < length ms" by simp
      then show ?thesis using forced book search
        by (cases "quickTacticalScan e p ms"; cases "bookMove e p h") auto
    qed
  qed
  then show ?thesis
  proof cases
    case none
    then show ?thesis
      by (simp add: getBestMove_def Let_def ms_def [symmetric] w1_def)
  next
    case one
    then show ?thesis
      by (simp add: getBestMove_def Let_def ms_def [symmetric] w1_def)
  next
    case forced
    from quickTacticalScan_move [OF forced(2)] have "f \<in> set ms" .
    with forced show ?thesis
      by (auto simp: getBestMove_def Let_def ms_def [symmetric] w1_def)
  next
    case book
    then show ?thesis
      by (auto simp: getBestMove_def Let_def ms_def [symmetric] w1_def)
  next
    case search
    then have ne: "ms \<noteq> []" by auto
    from searchSetup_start [OF ne, of e p h w1] have
      start: "1 \<le> fst cfg" "d_bestMove (snd cfg) = ms ! 0"
      by (simp_all add: cfg_def)
    have "ms ! 0 \<in> set ms" using ne by simp
    then have "d_bestMove (snd cfg) \<in> set (generateMoves dark p)"
      using start(2) by (simp add: ms_def)
    from iterativeDeepening_bestMove [OF this]
    have best: "d_bestMove st \<in> set (generateMoves dark p)" by (simp add: st_def)
    have gate: "finalSafetyCheck e (d_world st) p ms (d_bestMove st) = Some (d_bestMove st)"
      using finalSafetyCheck_generated [OF wf best] .
    have res: "getBestMove e dark w p h
        = Some (Some (d_bestMove st), snd (dateNow e (d_world st)))"
      using search gate ne
      by (simp add: getBestMove_def Let_def ms_def [symmetric] w1_def [symmetric]
          cfg_def [symmetric] st_def [symmetric])
    have exh: "\<And>st'. deepenStep e dark p (fst (dateNow e w)) (fst cfg) 1 (snd cfg) = Exhausted st'
        \<Longrightarrow> d_bestMove st = ms ! 0"
    proof -
      fix st'
      assume "deepenStep e dark p (fst (dateNow e w)) (fst cfg) 1 (snd cfg) = Exhausted st'"
      from iterativeDeepening_exhausted [OF start(1) this]
      show "d_bestMove st = ms ! 0" using start(2) by (simp add: st_def)
    qed
    show ?thesis
      using res best search exh
      by (auto simp: ms_def [symmetric] w1_def [symmetric] cfg_def [symmetric])
  qed
qed

text \<open>
  The theorem for \<open>twoMovesPosition\<close> with a clock that has run out at its second reading:
  the first of the two generated moves is returned.
\<close>

theorem getBestMove_returns_witness:
  "wf_grid (pieces twoMovesPosition)
   \<and> generateMoves oddDark twoMovesPosition
       = [\<lparr>from = sq 6 3, to = sq 5 2, captures = []\<rparr>, \<lparr>from = sq 6 3, to = sq 5 4, captures = []\<rparr>]
   \<and> (\<exists>w'. getBestMove lateEnv oddDark startWorld twoMovesPosition None
             = Some (Some \<lparr>from = sq 6 3, to = sq 5 2, captures = []\<rparr>, w'))"
proof -
  have wf: "wf_grid (pieces twoMovesPosition)" by code_simp
  have ms: "generateMoves oddDark twoMovesPosition
       = [\<lparr>from = sq 6 3, to = sq 5 2, captures = []\<rparr>, \<lparr>from = sq 6 3, to = sq 5 4, captures = []\<rparr>]"
    by code_simp
  have scan: "quickTacticalScan lateEnv twoMovesPosition (generateMoves oddDark twoMovesPosition) = None"
    unfolding ms by code_simp
  have book: "bookMove lateEnv twoMovesPosition None = None" by code_simp
  have late: "\<exists>st'. deepenStep lateEnv oddDark twoMovesPosition (fst (dateNow lateEnv startWorld))
                      (fst (searchSetup lateEnv twoMovesPosition None (generateMoves oddDark twoMovesPosition)
                              (resetSearch (snd (dateNow lateEnv startWorld)))))
                      1
                      (snd (searchSetup lateEnv twoMovesPosition None (generateMoves oddDark twoMovesPosition)
                              (resetSearch (snd (dateNow lateEnv startWorld)))))
                    = Exhausted st'"
    unfolding ms
    by (simp add: deepenStep_def Let_def dateNow_def lateEnv_def startWorld_def resetSearch_def
        searchSetup_def allocateTime_def TIME_ALLOCATION_def COMPLEX_POSITION_MULTIPLIER_def)
  from getBestMove_returns [OF wf, of lateEnv oddDark startWorld None] scan book late
  show ?thesis
    using wf ms by auto
qed

text \<open>
  The claim as stated fails when an opening book is installed: for \<open>twoMovesPosition\<close> the
  book of \<open>bookEnv\<close> answers with a move that is not among the two generated moves, and
  \<open>getBestMove\<close> returns it.
\<close>

theorem getBestMove_book_move_counterexample:
  "getBestMove bookEnv oddDark startWorld twoMovesPosition None
     = Some (Some agedMove, resetSearch (snd (dateNow bookEnv startWorld)))
   \<and> agedMove \<notin> set (generateMoves oddDark twoMovesPosition)
   \<and> length (generateMoves oddDark twoMovesPosition) = 2"
  by code_simp
section \<open>The score of a position without moves\<close>

text \<open>
  Claim C5, amended. A call of \<open>negamax\<close> that is within the recursion limit, is not stopped
  by the time check, does not see the position twice in its history, has a positive depth
  and finds no usable transposition-table entry returns, for a position whose side to move
  has no move, the score \<open>- 10000 + ply\<close>. That score is below the repetition score \<open>- 50\<close>
  for every ply under 9950, and it grows with the ply: a loss that comes sooner scores lower
  for the side that loses.
\<close>

theorem negamax_zero_moves_score:
  assumes "recursionDepth \<le> maxRecursionDepth"
    and "\<not> ((nodeCount w + 1) mod 2048 = 0 \<and> clock e (ticks w) - startTime > timeLimit)"
    and "length (filter (\<lambda>k. k = generateKey dark p) (history p)) < 2"
    and "0 < depth"
    and "\<forall>en. fst (lookup (cache (rest w)) (generateKey dark p) depth alpha beta) \<noteq> Some (en, True)"
    and "generateMoves dark p = []"
  shows "(\<exists>w'. negamaxEntry e dark w p depth alpha beta startTime timeLimit recursionDepth ply
              = Returned (Num (- 10000 + of_nat ply)) w')
     \<and> (ply < 9950 \<longrightarrow> Num (- 10000 + of_nat ply) < Num (- 50))
     \<and> (\<forall>ply'. ply < ply' \<longrightarrow> Num (- 10000 + of_nat ply) < Num (- 10000 + of_nat ply'))"
proof -
  define w1 where "w1 = w\<lparr>nodeCount := nodeCount w + 1\<rparr>"
  define w2 where "w2 = (if nodeCount w1 mod 2048 = 0 then snd (dateNow e w1) else w1)"
  have r: "rest w2 = rest w" by (simp add: w2_def w1_def dateNow_def)
  have t: "\<not> (nodeCount w1 mod 2048 = 0 \<and> fst (dateNow e w1) - startTime > timeLimit)"
    using assms(2) by (simp add: w1_def dateNow_def)
  have c: "\<And>en. fst (lookup (cache (rest w2)) (generateKey dark p) depth alpha beta) \<noteq> Some (en, True)"
    using assms(5) r by simp
  have "\<exists>w'. negamaxEntry e dark w p depth alpha beta startTime timeLimit recursionDepth ply
              = Returned (Num (- 10000 + of_nat ply)) w'"
    unfolding negamaxEntry_def Let_def
    unfolding w1_def [symmetric]
    using assms(1,3,4,6) t c
    unfolding w2_def [symmetric]
    by (auto simp: w2_def [symmetric] split: option.splits bool.splits)
  moreover have "ply < 9950 \<longrightarrow> Num (- 10000 + of_nat ply) < Num (- 50)"
    by (auto simp: less_num_def)
  moreover have "\<forall>ply'. ply < ply' \<longrightarrow> Num (- 10000 + of_nat ply) < Num (- 10000 + of_nat ply')"
    by (auto simp: less_num_def)
  ultimately show ?thesis by blast
qed

text \<open>
  The theorem for \<open>blockedPosition\<close>, where the white man on (5,0) has neither a step nor a
  jump: at ply 4 the score is \<open>- 9996\<close>.
\<close>

theorem negamax_zero_moves_score_witness:
  "generateMoves oddDark blockedPosition = []
   \<and> (\<exists>w'. negamaxEntry quietEnv oddDark freshWorld blockedPosition 3 NegInfinity Infinity 0 1000 0 4
         = Returned (Num (- 9996)) w')
   \<and> Num (- 9996) < Num (- 50)"
proof -
  have h1: "0 \<le> maxRecursionDepth" by simp
  have h2: "\<not> ((nodeCount freshWorld + 1) mod 2048 = 0 \<and> clock quietEnv (ticks freshWorld) - 0 > 1000)"
    by (simp add: freshWorld_def quietEnv_def)
  have h3: "length (filter (\<lambda>k. k = generateKey oddDark blockedPosition) (history blockedPosition)) < 2"
    by (simp add: blockedPosition_def)
  have h4: "(0::int) < 3" by simp
  have h5: "\<forall>en. fst (lookup (cache (rest freshWorld)) (generateKey oddDark blockedPosition) 3 NegInfinity Infinity) \<noteq> Some (en, True)"
    by (simp add: freshWorld_def emptyTT_def lookup_def)
  have h6: "generateMoves oddDark blockedPosition = []" by code_simp
  from negamax_zero_moves_score [where ply = 4, OF h1 h2 h3 h4 h5 h6] h6
  show ?thesis by simp
qed

text \<open>
  The claim as stated fails in its last part. In \<open>heavyPosition\<close> White has a move and both
  sides have pieces, so the position is not terminal, and \<open>evaluatePosition\<close> gives
  \<open>- 10361.7\<close> for the side to move: less than the score \<open>- 10000\<close> of a position without
  moves at ply 0. Past the recursion limit \<open>negamax\<close> returns that evaluation.
\<close>

theorem evaluation_below_mate_score_counterexample:
  "generateMoves oddDark heavyPosition = [\<lparr>from = sq 9 0, to = sq 8 1, captures = []\<rparr>]
   \<and> length (whitePieces heavyPosition) = 1 \<and> length (blackPieces heavyPosition) = 20
   \<and> fst (evaluatePosition oddDark freshWorld heavyPosition) = - (103617 / 10)
   \<and> (\<exists>w'. negamaxEntry quietEnv oddDark freshWorld heavyPosition 3 NegInfinity Infinity 0 1000 61 0
          = Returned (Num (- (103617 / 10))) w')
   \<and> Num (- (103617 / 10)) < Num (- 10000 + of_nat 0)"
proof -
  have g: "generateMoves oddDark heavyPosition = [\<lparr>from = sq 9 0, to = sq 8 1, captures = []\<rparr>]"
    by code_simp
  have n: "length (whitePieces heavyPosition) = 1 \<and> length (blackPieces heavyPosition) = 20"
    by code_simp
  have v: "fst (evaluatePosition oddDark freshWorld heavyPosition) = - (103617 / 10)"
    by code_simp
  have v1: "fst (evaluatePosition oddDark (freshWorld\<lparr>nodeCount := nodeCount freshWorld + 1\<rparr>)
                   heavyPosition) = - (103617 / 10)"
    by code_simp
  have r: "\<exists>w'. negamaxEntry quietEnv oddDark freshWorld heavyPosition 3 NegInfinity Infinity 0 1000 61 0
          = Returned (Num (- (103617 / 10))) w'"
    unfolding negamaxEntry_def Let_def using v1 by (simp add: maxRecursionDepth_def)
  have l: "Num (- (103617 / 10)) < Num (- 10000 + of_nat 0)"
    by (simp add: less_num_def)
  from g n v r l show ?thesis by blast
qed


end
